theory Spec2Isabelle
  imports Main "HOL-Library.Sublist"
begin

section \<open>Values of a decoded JSON document\<close>

text \<open>
  A Python \<^verbatim>\<open>str\<close> is the list of its code points, so that \<^verbatim>\<open>len\<close>, slicing, \<^verbatim>\<open>in\<close> and
  \<^verbatim>\<open>startswith\<close> count and compare what Python counts and compares. \<open>lit\<close> is the text
  of a literal written with the characters of \<open>string\<close> (code points below 256).
\<close>

type_synonym pystr = "nat list"

definition lit :: "string \<Rightarrow> pystr" where
  "lit s = map of_char s"

text \<open>
  \<^verbatim>\<open>json.load\<close> gives \<^verbatim>\<open>None\<close>, \<^verbatim>\<open>bool\<close>, \<^verbatim>\<open>int\<close>, \<^verbatim>\<open>float\<close>, \<^verbatim>\<open>str\<close>,
  \<^verbatim>\<open>list\<close> and \<^verbatim>\<open>dict\<close> (string keys, in insertion order). The program reads two things of
  a float only: whether it is non-zero (its truth value) and its \<^verbatim>\<open>str()\<close> text; a float is
  kept as that pair. A dict is the list of its items; every lookup goes through
  \<open>map_of\<close>.
\<close>

datatype json =
    JNull
  | JBool bool
  | JInt int
  | JFloat bool pystr
  | JStr pystr
  | JArr "json list"
  | JObj "(pystr \<times> json) list"

datatype py_exception = AttributeError | TypeError | KeyError

text \<open>Sequencing of steps that may raise: the first exception ends the run.\<close>

definition and_then :: "'e + 'a \<Rightarrow> ('a \<Rightarrow> 'e + 'b) \<Rightarrow> 'e + 'b" where
  "and_then m f = (case m of Inl e \<Rightarrow> Inl e | Inr x \<Rightarrow> f x)"

subsection \<open>The operations of Python the program applies to values\<close>

text \<open>\<^verbatim>\<open>bool(v)\<close>, as \<^verbatim>\<open>not v\<close>, \<^verbatim>\<open>if v\<close> and \<^verbatim>\<open>v and ...\<close> read it.\<close>

fun truthy :: "json \<Rightarrow> bool" where
  "truthy JNull = False"
| "truthy (JBool b) = b"
| "truthy (JInt i) = (i \<noteq> 0)"
| "truthy (JFloat nz s) = nz"
| "truthy (JStr s) = (s \<noteq> [])"
| "truthy (JArr xs) = (xs \<noteq> [])"
| "truthy (JObj kvs) = (kvs \<noteq> [])"

text \<open>
  \<^verbatim>\<open>k in v\<close> for a string \<open>k\<close>: key membership in a dict, element membership in a list
  (a string equals only an equal string), substring test in a string; \<^verbatim>\<open>TypeError\<close> on
  \<^verbatim>\<open>None\<close>, booleans and numbers.
\<close>

fun contains :: "pystr \<Rightarrow> json \<Rightarrow> py_exception + bool" where
  "contains k (JObj kvs) = Inr (map_of kvs k \<noteq> None)"
| "contains k (JArr xs) = Inr (JStr k \<in> set xs)"
| "contains k (JStr s) = Inr (sublist k s)"
| "contains k v = Inl TypeError"

text \<open>\<^verbatim>\<open>v[k]\<close> for a string \<open>k\<close>.\<close>

fun getitem :: "json \<Rightarrow> pystr \<Rightarrow> py_exception + json" where
  "getitem (JObj kvs) k = (case map_of kvs k of None \<Rightarrow> Inl KeyError | Some v \<Rightarrow> Inr v)"
| "getitem v k = Inl TypeError"

text \<open>\<^verbatim>\<open>v.get(k, default)\<close>; \<^verbatim>\<open>v.get(k)\<close> is \<open>get_method v k JNull\<close>. Only a dict has the method.\<close>

definition dict_get :: "(pystr \<times> json) list \<Rightarrow> pystr \<Rightarrow> json \<Rightarrow> json" where
  "dict_get kvs k dflt = (case map_of kvs k of None \<Rightarrow> dflt | Some v \<Rightarrow> v)"

fun get_method :: "json \<Rightarrow> pystr \<Rightarrow> json \<Rightarrow> py_exception + json" where
  "get_method (JObj kvs) k dflt = Inr (dict_get kvs k dflt)"
| "get_method v k dflt = Inl AttributeError"

text \<open>\<^verbatim>\<open>v.startswith(p)\<close>: only a string has the method.\<close>

fun startswith :: "json \<Rightarrow> pystr \<Rightarrow> py_exception + bool" where
  "startswith (JStr s) p = Inr (prefix p s)"
| "startswith v p = Inl AttributeError"

text \<open>\<^verbatim>\<open>len(v)\<close>.\<close>

fun py_len :: "json \<Rightarrow> py_exception + nat" where
  "py_len (JStr s) = Inr (length s)"
| "py_len (JArr xs) = Inr (length xs)"
| "py_len (JObj kvs) = Inr (length kvs)"
| "py_len v = Inl TypeError"

text \<open>
  The items a \<^verbatim>\<open>for\<close> loop over \<open>v\<close> visits: the elements of a list, the keys of a dict,
  the one-character strings of a string.
\<close>

fun py_iter :: "json \<Rightarrow> py_exception + json list" where
  "py_iter (JArr xs) = Inr xs"
| "py_iter (JObj kvs) = Inr (map (\<lambda>kv. JStr (fst kv)) kvs)"
| "py_iter (JStr s) = Inr (map (\<lambda>c. JStr [c]) s)"
| "py_iter v = Inl TypeError"

text \<open>\<^verbatim>\<open>v[:n]\<close>: strings and lists are sliced, a dict and a scalar raise.\<close>

fun slice_to :: "nat \<Rightarrow> json \<Rightarrow> py_exception + json" where
  "slice_to n (JStr s) = Inr (JStr (take n s))"
| "slice_to n (JArr xs) = Inr (JArr (take n xs))"
| "slice_to n v = Inl TypeError"

subsection \<open>Text of a value in an f-string\<close>

text \<open>
  \<^verbatim>\<open>str\<close> of a natural number: its decimal digits. They are ASCII, so \<open>str_nat\<close> gives a
  \<open>string\<close>, which \<open>lit\<close> turns into text.
\<close>

definition digit_chars :: string where
  "digit_chars = ''0123456789''"

function str_nat :: "nat \<Rightarrow> string" where
  "str_nat n =
     (if n < 10 then [digit_chars ! n]
      else str_nat (n div 10) @ [digit_chars ! (n mod 10)])"
  by pat_completeness auto
termination
  by (relation "measure id") auto

declare str_nat.simps [simp del]

text \<open>The number a decimal text stands for: the inverse of \<open>str_nat\<close>.\<close>

definition nat_of_str :: "string \<Rightarrow> nat" where
  "nat_of_str s = foldl (\<lambda>a c. 10 * a + (of_char c - 48)) 0 s"

definition str_int :: "int \<Rightarrow> string" where
  "str_int i = (if i < 0 then CHR ''-'' # str_nat (nat (- i)) else str_nat (nat i))"

definition hex_chars :: string where
  "hex_chars = ''0123456789abcdef''"

text \<open>The \<open>w\<close> lowest hexadecimal digits of \<open>c\<close>, highest first.\<close>

definition hex_digits :: "nat \<Rightarrow> nat \<Rightarrow> string" where
  "hex_digits w c = map (\<lambda>k. hex_chars ! ((c div 16 ^ k) mod 16)) (rev [0..<w])"

text \<open>
  \<^verbatim>\<open>repr\<close> of a string: single quotes unless the text has a single quote and no double
  quote; the quote and the backslash are escaped, tab, newline and carriage return are
  written \<^verbatim>\<open>\t \n \r\<close>, the other control characters of ASCII \<^verbatim>\<open>\xhh\<close>, the rest of ASCII
  as it is. Beyond ASCII a character is copied when the Unicode database of the
  interpreter calls it printable, and escaped otherwise (\<^verbatim>\<open>\xhh\<close>, \<^verbatim>\<open>\uhhhh\<close> or
  \<^verbatim>\<open>\Uhhhhhhhh\<close>). That table is not part of the program: it is the parameter \<open>pr\<close> of
  every function that may print a value.
\<close>

definition repr_char :: "(nat \<Rightarrow> bool) \<Rightarrow> nat \<Rightarrow> nat \<Rightarrow> pystr" where
  "repr_char pr q c =
     (if c = q \<or> c = 0x5C then [0x5C, c]
      else if c = 0x09 then lit [CHR 0x5C, CHR ''t'']
      else if c = 0x0A then lit [CHR 0x5C, CHR ''n'']
      else if c = 0x0D then lit [CHR 0x5C, CHR ''r'']
      else if c < 0x20 \<or> c = 0x7F then lit (CHR 0x5C # CHR ''x'' # hex_digits 2 c)
      else if c < 0x7F then [c]
      else if pr c then [c]
      else if c \<le> 0xFF then lit (CHR 0x5C # CHR ''x'' # hex_digits 2 c)
      else if c \<le> 0xFFFF then lit (CHR 0x5C # CHR ''u'' # hex_digits 4 c)
      else lit (CHR 0x5C # CHR ''U'' # hex_digits 8 c))"

definition repr_str :: "(nat \<Rightarrow> bool) \<Rightarrow> pystr \<Rightarrow> pystr" where
  "repr_str pr s =
     (let q = (if 0x27 \<in> set s \<and> 0x22 \<notin> set s then 0x22 else 0x27)
      in q # concat (map (repr_char pr q) s) @ [q])"

fun join :: "pystr \<Rightarrow> pystr list \<Rightarrow> pystr" where
  "join sep [] = []"
| "join sep [x] = x"
| "join sep (x # y # ys) = x @ sep @ join sep (y # ys)"

fun py_repr :: "(nat \<Rightarrow> bool) \<Rightarrow> json \<Rightarrow> pystr" where
  "py_repr pr JNull = lit ''None''"
| "py_repr pr (JBool b) = (if b then lit ''True'' else lit ''False'')"
| "py_repr pr (JInt i) = lit (str_int i)"
| "py_repr pr (JFloat nz s) = s"
| "py_repr pr (JStr s) = repr_str pr s"
| "py_repr pr (JArr xs) = lit ''['' @ join (lit '', '') (map (py_repr pr) xs) @ lit '']''"
| "py_repr pr (JObj kvs) =
     lit ''{'' @
     join (lit '', '') (map (\<lambda>kv. repr_str pr (fst kv) @ lit '': '' @ py_repr pr (snd kv)) kvs) @
     lit ''}''"

text \<open>\<^verbatim>\<open>str(v)\<close>, which an f-string field \<^verbatim>\<open>{v}\<close> inserts: a string as it is.\<close>

fun py_str :: "(nat \<Rightarrow> bool) \<Rightarrow> json \<Rightarrow> pystr" where
  "py_str pr (JStr s) = s"
| "py_str pr v = py_repr pr v"

text \<open>
  A table for the examples: the printable characters of Latin-1 and nothing above.
  No statement below depends on the table.
\<close>

definition latin1_printable :: "nat \<Rightarrow> bool" where
  "latin1_printable c \<longleftrightarrow> 161 \<le> c \<and> c \<le> 255 \<and> c \<noteq> 173"

section \<open>The validator\<close>

text \<open>
  The two result lists of \<^verbatim>\<open>validate_server_json\<close>: errors, then warnings. Each block of
  the function gives the messages it appends, in order; blocks run one after the other
  and an exception in any of them ends the call.
\<close>

type_synonym diags = "pystr list \<times> pystr list"

definition both :: "diags \<Rightarrow> diags \<Rightarrow> diags" where
  "both d d' = (fst d @ fst d', snd d @ snd d')"

fun for_each :: "('a \<Rightarrow> py_exception + diags) \<Rightarrow> 'a list \<Rightarrow> py_exception + diags" where
  "for_each body [] = Inr ([], [])"
| "for_each body (x # xs) =
     and_then (body x) (\<lambda>d. and_then (for_each body xs) (\<lambda>d'. Inr (both d d')))"

abbreviation apos :: pystr where
  "apos \<equiv> lit [CHR 0x27]"

subsection \<open>Required fields\<close>

definition required_fields :: "pystr list" where
  "required_fields = [lit ''name'', lit ''version'', lit ''description'']"

definition msg_missing_required :: "pystr \<Rightarrow> pystr" where
  "msg_missing_required field = lit ''Missing required field: '' @ field"

definition msg_empty_required :: "pystr \<Rightarrow> pystr" where
  "msg_empty_required field = lit ''Field '' @ apos @ field @ apos @ lit '' cannot be empty''"

definition required_field :: "json \<Rightarrow> pystr \<Rightarrow> py_exception + diags" where
  "required_field config field =
     and_then (contains field config) (\<lambda>present.
       if \<not> present then Inr ([msg_missing_required field], [])
       else and_then (getitem config field) (\<lambda>v.
         if \<not> truthy v then Inr ([msg_empty_required field], []) else Inr ([], [])))"

subsection \<open>Name format\<close>

definition msg_name_namespace :: "pystr \<Rightarrow> pystr" where
  "msg_name_namespace name = lit ''Name should use io.github.* or com.* namespace: '' @ name"

definition msg_name_slash :: "pystr \<Rightarrow> pystr" where
  "msg_name_slash name = lit ''Name should include a slash separator (namespace/name): '' @ name"

definition check_name :: "(nat \<Rightarrow> bool) \<Rightarrow> json \<Rightarrow> py_exception + diags" where
  "check_name pr config =
     and_then (contains (lit ''name'') config) (\<lambda>present.
       if \<not> present then Inr ([], [])
       else and_then (getitem config (lit ''name'')) (\<lambda>name.
         and_then (startswith name (lit ''io.github.'')) (\<lambda>io.
         and_then (if io then Inr True else startswith name (lit ''com.'')) (\<lambda>namespaced.
         and_then (contains (lit ''/'') name) (\<lambda>slash.
           Inr ([], (if \<not> namespaced then [msg_name_namespace (py_str pr name)] else []) @
                    (if \<not> slash then [msg_name_slash (py_str pr name)] else [])))))))"

subsection \<open>Deployment presence\<close>

definition msg_no_deployment :: pystr where
  "msg_no_deployment = lit ''Must have at least one package or remote deployment''"

text \<open>
  \<^verbatim>\<open>config.get(key) and len(config[key]) > 0\<close>, read as a truth value (the only way the
  function reads it).
\<close>

definition has_entries :: "json \<Rightarrow> pystr \<Rightarrow> py_exception + bool" where
  "has_entries config key =
     and_then (get_method config key JNull) (\<lambda>v.
       if \<not> truthy v then Inr False
       else and_then (getitem config key) (\<lambda>v'.
         and_then (py_len v') (\<lambda>n. Inr (0 < n))))"

subsection \<open>Packages\<close>

definition known_package_types :: "json list" where
  "known_package_types =
     [JStr (lit ''npm''), JStr (lit ''pypi''), JStr (lit ''mcpb''), JStr (lit ''docker''),
      JStr (lit ''nuget'')]"

definition pkg_prefix :: "nat \<Rightarrow> pystr" where
  "pkg_prefix idx = lit ''Package '' @ lit (str_nat idx)"

definition platform_prefix :: "nat \<Rightarrow> nat \<Rightarrow> pystr" where
  "platform_prefix idx pidx =
     lit ''Package '' @ lit (str_nat idx) @ lit '', Platform '' @ lit (str_nat pidx)"

definition msg_missing_quoted :: "pystr \<Rightarrow> pystr" where
  "msg_missing_quoted field = lit '': Missing '' @ apos @ field @ apos @ lit '' field''"

definition msg_mcpb_missing :: "nat \<Rightarrow> pystr \<Rightarrow> pystr \<Rightarrow> pystr" where
  "msg_mcpb_missing idx field kind =
     pkg_prefix idx @ lit '': MCPB package missing '' @ apos @ field @ apos @ lit '' '' @ kind"

definition msg_unknown_type :: "(nat \<Rightarrow> bool) \<Rightarrow> nat \<Rightarrow> json \<Rightarrow> pystr" where
  "msg_unknown_type pr idx pkg_type =
     pkg_prefix idx @ lit '': Unknown package type '' @ apos @ py_str pr pkg_type @ apos"

definition check_platform :: "nat \<Rightarrow> nat \<Rightarrow> json \<Rightarrow> py_exception + diags" where
  "check_platform idx pidx platform =
     and_then (contains (lit ''os'') platform) (\<lambda>has_os.
     and_then (contains (lit ''arch'') platform) (\<lambda>has_arch.
     and_then (contains (lit ''uri'') platform) (\<lambda>has_uri.
     and_then (contains (lit ''sha256'') platform) (\<lambda>has_sha256.
       Inr ((if \<not> has_os then [platform_prefix idx pidx @ msg_missing_quoted (lit ''os'')] else []) @
            (if \<not> has_arch then [platform_prefix idx pidx @ msg_missing_quoted (lit ''arch'')] else []) @
            (if \<not> has_uri then [platform_prefix idx pidx @ msg_missing_quoted (lit ''uri'')] else []) @
            (if \<not> has_sha256 then [platform_prefix idx pidx @ msg_missing_quoted (lit ''sha256'')] else []),
            [])))))"

definition check_mcpb :: "nat \<Rightarrow> json \<Rightarrow> py_exception + diags" where
  "check_mcpb idx package =
     and_then (contains (lit ''uri'') package) (\<lambda>has_uri.
     and_then (contains (lit ''sha256'') package) (\<lambda>has_sha256.
     and_then (contains (lit ''platforms'') package) (\<lambda>has_platforms.
     and_then (if \<not> has_platforms then Inr True
               else and_then (getitem package (lit ''platforms'')) (\<lambda>p. Inr (\<not> truthy p))) (\<lambda>no_platforms.
     and_then (if no_platforms then Inr ([msg_mcpb_missing idx (lit ''platforms'') (lit ''array'')], [])
               else and_then (getitem package (lit ''platforms'')) (\<lambda>platforms.
                    and_then (py_iter platforms) (\<lambda>ps.
                      for_each (\<lambda>(pidx, platform). check_platform idx pidx platform)
                        (enumerate 0 ps)))) (\<lambda>d.
       Inr (both ((if \<not> has_uri then [msg_mcpb_missing idx (lit ''uri'') (lit ''field'')] else []) @
                  (if \<not> has_sha256 then [msg_mcpb_missing idx (lit ''sha256'') (lit ''field'')] else []), [])
              d))))))"

definition check_type :: "(nat \<Rightarrow> bool) \<Rightarrow> nat \<Rightarrow> json \<Rightarrow> diags" where
  "check_type pr idx pkg_type =
     (if \<not> truthy pkg_type then ([pkg_prefix idx @ msg_missing_quoted (lit ''type'')], [])
      else if pkg_type \<notin> set known_package_types then ([], [msg_unknown_type pr idx pkg_type])
      else ([], []))"

definition check_package :: "(nat \<Rightarrow> bool) \<Rightarrow> nat \<Rightarrow> json \<Rightarrow> py_exception + diags" where
  "check_package pr idx package =
     and_then (get_method package (lit ''type'') JNull) (\<lambda>pkg_type.
     and_then (if pkg_type = JStr (lit ''mcpb'') then check_mcpb idx package else Inr ([], [])) (\<lambda>d.
       Inr (both (check_type pr idx pkg_type) d)))"

subsection \<open>Remotes\<close>

definition known_transports :: "json list" where
  "known_transports = [JStr (lit ''streamable-http''), JStr (lit ''sse'')]"

definition remote_prefix :: "nat \<Rightarrow> pystr" where
  "remote_prefix idx = lit ''Remote '' @ lit (str_nat idx)"

definition msg_unknown_transport :: "(nat \<Rightarrow> bool) \<Rightarrow> nat \<Rightarrow> json \<Rightarrow> pystr" where
  "msg_unknown_transport pr idx transport =
     remote_prefix idx @ lit '': Unknown transport '' @ apos @ py_str pr transport @ apos"

definition check_remote :: "(nat \<Rightarrow> bool) \<Rightarrow> nat \<Rightarrow> json \<Rightarrow> py_exception + diags" where
  "check_remote pr idx remote =
     and_then (contains (lit ''endpoint'') remote) (\<lambda>has_endpoint.
     and_then (contains (lit ''transport'') remote) (\<lambda>has_transport.
     and_then (if \<not> has_transport then Inr ([remote_prefix idx @ msg_missing_quoted (lit ''transport'')], [])
               else and_then (getitem remote (lit ''transport'')) (\<lambda>transport.
                 if transport \<notin> set known_transports
                 then Inr ([], [msg_unknown_transport pr idx transport])
                 else Inr ([], []))) (\<lambda>d.
       Inr (both ((if \<not> has_endpoint then [remote_prefix idx @ msg_missing_quoted (lit ''endpoint'')] else []), [])
              d))))"

subsection \<open>Recommended fields and the repository\<close>

definition recommended_fields :: "pystr list" where
  "recommended_fields = [lit ''license'', lit ''homepage'', lit ''repository'']"

definition msg_recommended :: "pystr \<Rightarrow> pystr" where
  "msg_recommended field = lit ''Recommended field missing: '' @ field"

definition recommended_field :: "json \<Rightarrow> pystr \<Rightarrow> py_exception + diags" where
  "recommended_field config field =
     and_then (contains field config) (\<lambda>present.
       if \<not> present then Inr ([], [msg_recommended field]) else Inr ([], []))"

fun is_dict :: "json \<Rightarrow> bool" where
  "is_dict (JObj kvs) = True"
| "is_dict v = False"

definition check_repository :: "json \<Rightarrow> py_exception + diags" where
  "check_repository config =
     and_then (contains (lit ''repository'') config) (\<lambda>present.
       if \<not> present then Inr ([], [])
       else and_then (getitem config (lit ''repository'')) (\<lambda>repo.
         if \<not> is_dict repo then Inr ([lit ''Repository must be an object''], [])
         else and_then (contains (lit ''type'') repo) (\<lambda>has_type.
              and_then (contains (lit ''url'') repo) (\<lambda>has_url.
                Inr ([], (if \<not> has_type then [lit ''Repository missing '' @ apos @ lit ''type'' @ apos @ lit '' field''] else []) @
                         (if \<not> has_url then [lit ''Repository missing '' @ apos @ lit ''url'' @ apos @ lit '' field''] else []))))))"

subsection \<open>The whole function\<close>

definition check_deployment :: "bool \<Rightarrow> bool \<Rightarrow> diags" where
  "check_deployment has_packages has_remotes =
     (if \<not> has_packages \<and> \<not> has_remotes then ([msg_no_deployment], []) else ([], []))"

definition check_packages :: "(nat \<Rightarrow> bool) \<Rightarrow> json \<Rightarrow> py_exception + diags" where
  "check_packages pr config =
     and_then (getitem config (lit ''packages'')) (\<lambda>packages.
     and_then (py_iter packages) (\<lambda>ps.
       for_each (\<lambda>(idx, package). check_package pr idx package) (enumerate 0 ps)))"

definition check_remotes :: "(nat \<Rightarrow> bool) \<Rightarrow> json \<Rightarrow> py_exception + diags" where
  "check_remotes pr config =
     and_then (getitem config (lit ''remotes'')) (\<lambda>remotes.
     and_then (py_iter remotes) (\<lambda>rs.
       for_each (\<lambda>(idx, remote). check_remote pr idx remote) (enumerate 0 rs)))"

definition validate_server_json :: "(nat \<Rightarrow> bool) \<Rightarrow> json \<Rightarrow> py_exception + diags" where
  "validate_server_json pr config =
     and_then (for_each (required_field config) required_fields) (\<lambda>d1.
     and_then (check_name pr config) (\<lambda>d2.
     and_then (has_entries config (lit ''packages'')) (\<lambda>has_packages.
     and_then (has_entries config (lit ''remotes'')) (\<lambda>has_remotes.
     and_then (if has_packages then check_packages pr config else Inr ([], [])) (\<lambda>d4.
     and_then (if has_remotes then check_remotes pr config else Inr ([], [])) (\<lambda>d5.
     and_then (for_each (recommended_field config) recommended_fields) (\<lambda>d6.
     and_then (check_repository config) (\<lambda>d7.
       Inr (both d1 (both d2 (both (check_deployment has_packages has_remotes)
             (both d4 (both d5 (both d6 d7))))))))))))))"

section \<open>The reporter\<close>

text \<open>
  \<^verbatim>\<open>main\<close> after the file has been read: what it prints, one string for each call of
  \<^verbatim>\<open>print\<close>, and how the process ends. An exception nobody catches ends the process
  with status 1. Writing to standard output is taken to succeed for every character.
\<close>

datatype load_result = FileNotFound | InvalidJSON pystr | Loaded json

datatype outcome = Exit nat | Uncaught py_exception

fun exit_status :: "outcome \<Rightarrow> nat" where
  "exit_status (Exit n) = n"
| "exit_status (Uncaught e) = 1"

text \<open>The characters outside ASCII of the printed literals, as the source file has them.\<close>

definition icon_cross :: pystr where
  "icon_cross = [0x201A, 0xF9, 0xE5]"

definition icon_warning :: pystr where
  "icon_warning = [0x201A, 0xF6, 0x2020, 0xD4, 0x220F, 0xE8]"

definition icon_check :: pystr where
  "icon_check = [0x201A, 0xFA, 0xD6]"

definition icon_bullet :: pystr where
  "icon_bullet = [0x201A, 0xC4, 0xA2]"

definition icon_clipboard :: pystr where
  "icon_clipboard = [0xF8FF, 0xFC, 0xEC, 0xE3]"

definition icon_computer :: pystr where
  "icon_computer = [0xF8FF, 0xFC, 0xF1, 0x2022, 0xD4, 0x220F, 0xE8]"

text \<open>
  A run of \<^verbatim>\<open>print\<close> calls whose arguments may raise: the lines printed before the first
  exception, and that exception.
\<close>

fun run_prints :: "(py_exception + pystr) list \<Rightarrow> pystr list \<times> py_exception option" where
  "run_prints [] = ([], None)"
| "run_prints (Inl e # rest) = ([], Some e)"
| "run_prints (Inr line # rest) = (line # fst (run_prints rest), snd (run_prints rest))"

definition bulleted :: "pystr \<Rightarrow> pystr" where
  "bulleted m = lit ''  '' @ icon_bullet @ lit '' '' @ m"

definition errors_block :: "pystr list \<Rightarrow> pystr list" where
  "errors_block errors =
     (if errors \<noteq> [] then [icon_cross @ lit '' ERRORS:''] @ map bulleted errors @ [[]] else [])"

definition warnings_block :: "pystr list \<Rightarrow> pystr list" where
  "warnings_block warnings =
     (if warnings \<noteq> [] then [icon_warning @ lit ''  WARNINGS:''] @ map bulleted warnings @ [[]] else [])"

definition summary_header :: pystr where
  "summary_header = lit [CHR 0x0A] @ icon_clipboard @ lit '' Configuration Summary:''"

definition summary :: "(nat \<Rightarrow> bool) \<Rightarrow> json \<Rightarrow> (py_exception + pystr) list" where
  "summary pr config =
     [Inr summary_header,
      and_then (get_method config (lit ''name'') JNull) (\<lambda>v. Inr (lit ''  Name: '' @ py_str pr v)),
      and_then (get_method config (lit ''version'') JNull) (\<lambda>v. Inr (lit ''  Version: '' @ py_str pr v)),
      and_then (get_method config (lit ''description'') (JStr [])) (\<lambda>v.
        and_then (slice_to 60 v) (\<lambda>s. Inr (lit ''  Description: '' @ py_str pr s @ lit ''...''))),
      and_then (get_method config (lit ''license'') (JStr (lit ''Not specified''))) (\<lambda>v.
        Inr (lit ''  License: '' @ py_str pr v)),
      and_then (get_method config (lit ''homepage'') (JStr (lit ''Not specified''))) (\<lambda>v.
        Inr (lit ''  Homepage: '' @ py_str pr v)),
      and_then (get_method config (lit ''packages'') (JArr [])) (\<lambda>v.
        and_then (py_len v) (\<lambda>n. Inr (lit ''  Packages: '' @ lit (str_nat n)))),
      and_then (get_method config (lit ''remotes'') (JArr [])) (\<lambda>v.
        and_then (py_len v) (\<lambda>n. Inr (lit ''  Remotes: '' @ lit (str_nat n))))]"

definition platform_line :: "(nat \<Rightarrow> bool) \<Rightarrow> json \<Rightarrow> py_exception + pystr" where
  "platform_line pr platform =
     and_then (get_method platform (lit ''os'') (JStr (lit ''unknown''))) (\<lambda>os_name.
     and_then (get_method platform (lit ''arch'') (JStr (lit ''unknown''))) (\<lambda>arch.
       Inr (lit ''    '' @ icon_bullet @ lit '' '' @ py_str pr os_name @ lit ''/'' @ py_str pr arch)))"

definition platform_lines :: "(nat \<Rightarrow> bool) \<Rightarrow> json \<Rightarrow> (py_exception + pystr) list" where
  "platform_lines pr pkg =
     (case and_then (get_method pkg (lit ''type'') JNull) (\<lambda>t.
             if t = JStr (lit ''mcpb'')
             then and_then (get_method pkg (lit ''platforms'') JNull) (\<lambda>p. Inr (truthy p))
             else Inr False) of
        Inl e \<Rightarrow> [Inl e]
      | Inr shown \<Rightarrow>
          if \<not> shown then []
          else and_then (getitem pkg (lit ''platforms'')) (\<lambda>p.
                 and_then (py_len p) (\<lambda>n.
                   Inr (lit [CHR 0x0A] @ lit ''  '' @ icon_computer @
                        lit ''  Platform Support ('' @ lit (str_nat n) @ lit '' platforms):''))) #
               (case and_then (getitem pkg (lit ''platforms'')) py_iter of
                  Inl e \<Rightarrow> [Inl e]
                | Inr platforms \<Rightarrow> map (platform_line pr) platforms))"

definition platform_support :: "(nat \<Rightarrow> bool) \<Rightarrow> json \<Rightarrow> (py_exception + pystr) list" where
  "platform_support pr config =
     (case get_method config (lit ''packages'') JNull of
        Inl e \<Rightarrow> [Inl e]
      | Inr v \<Rightarrow>
          if \<not> truthy v then []
          else (case and_then (get_method config (lit ''packages'') (JArr [])) py_iter of
                  Inl e \<Rightarrow> [Inl e]
                | Inr pkgs \<Rightarrow> concat (map (platform_lines pr) pkgs)))"

definition show_summary :: "(nat \<Rightarrow> bool) \<Rightarrow> json \<Rightarrow> pystr list \<Rightarrow> pystr list \<times> outcome" where
  "show_summary pr config printed =
     (case run_prints (summary pr config @ platform_support pr config) of
        (lines, None) \<Rightarrow> (printed @ lines, Exit 0)
      | (lines, Some e) \<Rightarrow> (printed @ lines, Uncaught e))"

fun main :: "(nat \<Rightarrow> bool) \<Rightarrow> load_result \<Rightarrow> pystr list \<times> outcome" where
  "main pr FileNotFound = ([icon_cross @ lit '' Error: server.json not found''], Exit 1)"
| "main pr (InvalidJSON e) = ([icon_cross @ lit '' Error: Invalid JSON in server.json: '' @ e], Exit 1)"
| "main pr (Loaded config) =
     (case validate_server_json pr config of
        Inl e \<Rightarrow> ([lit ''Validating server.json...'' @ lit [CHR 0x0A]], Uncaught e)
      | Inr (errors, warnings) \<Rightarrow>
          (let printed = [lit ''Validating server.json...'' @ lit [CHR 0x0A]] @
                         errors_block errors @ warnings_block warnings
           in if errors = [] \<and> warnings = []
              then show_summary pr config (printed @ [icon_check @ lit '' server.json looks good!''])
              else if errors = []
              then show_summary pr config
                     (printed @ [icon_check @ lit '' server.json is valid (with warnings above)''])
              else (printed @ [icon_cross @ lit '' server.json has validation errors''], Exit 1)))"

section \<open>Which entry a message is about\<close>

text \<open>
  A message is about package \<open>idx\<close> when it starts with \<^verbatim>\<open>Package idx:\<close> (a message of
  the package itself) or \<^verbatim>\<open>Package idx,\<close> (a message of one of its platforms); it is
  about remote \<open>idx\<close> when it starts with \<^verbatim>\<open>Remote idx:\<close>. The two name-format warnings
  are the messages that start with \<^verbatim>\<open>Name should\<close>.
\<close>

definition about_package :: "nat \<Rightarrow> pystr \<Rightarrow> bool" where
  "about_package idx m \<longleftrightarrow> prefix (pkg_prefix idx @ lit '':'') m \<or> prefix (pkg_prefix idx @ lit '','') m"

definition about_platforms_of :: "nat \<Rightarrow> pystr \<Rightarrow> bool" where
  "about_platforms_of idx m \<longleftrightarrow> prefix (pkg_prefix idx @ lit '','') m"

definition about_remote :: "nat \<Rightarrow> pystr \<Rightarrow> bool" where
  "about_remote idx m \<longleftrightarrow> prefix (remote_prefix idx @ lit '':'') m"

definition is_name_warning :: "pystr \<Rightarrow> bool" where
  "is_name_warning m \<longleftrightarrow> prefix (lit ''Name should '') m"

text \<open>The messages of the two loops over field names, on a dict.\<close>

definition required_msgs :: "(pystr \<times> json) list \<Rightarrow> pystr \<Rightarrow> pystr list" where
  "required_msgs d field =
     (case map_of d field of
        None \<Rightarrow> [msg_missing_required field]
      | Some v \<Rightarrow> if truthy v then [] else [msg_empty_required field])"

definition recommended_msgs :: "(pystr \<times> json) list \<Rightarrow> pystr \<Rightarrow> pystr list" where
  "recommended_msgs d field = (if map_of d field = None then [msg_recommended field] else [])"

section \<open>Documents whose values have the types the validator relies on\<close>

text \<open>
  The validator calls \<^verbatim>\<open>startswith\<close> on the name, \<^verbatim>\<open>len\<close> on a truthy \<^verbatim>\<open>packages\<close> or
  \<^verbatim>\<open>remotes\<close>, \<^verbatim>\<open>get\<close> on every package, \<^verbatim>\<open>in\<close> on every remote and on every platform of an
  \<^verbatim>\<open>mcpb\<close> package. A document is typed for it when the name, if present, is a string;
  \<^verbatim>\<open>packages\<close> and \<^verbatim>\<open>remotes\<close> are absent, falsy, or lists of mappings; and the
  \<^verbatim>\<open>platforms\<close> of every \<^verbatim>\<open>mcpb\<close> package is absent, falsy, or a list of mappings.
\<close>

fun is_str :: "json \<Rightarrow> bool" where
  "is_str (JStr s) = True"
| "is_str v = False"

definition entries_ok :: "(json \<Rightarrow> bool) \<Rightarrow> json option \<Rightarrow> bool" where
  "entries_ok ok x =
     (case x of
        None \<Rightarrow> True
      | Some (JArr xs) \<Rightarrow> list_all ok xs
      | Some v \<Rightarrow> \<not> truthy v)"

fun package_ok :: "json \<Rightarrow> bool" where
  "package_ok (JObj p) =
     (map_of p (lit ''type'') \<noteq> Some (JStr (lit ''mcpb'')) \<or> entries_ok is_dict (map_of p (lit ''platforms'')))"
| "package_ok v = False"

definition schema_typed :: "(pystr \<times> json) list \<Rightarrow> bool" where
  "schema_typed d \<longleftrightarrow>
     (case map_of d (lit ''name'') of None \<Rightarrow> True | Some v \<Rightarrow> is_str v) \<and>
     entries_ok package_ok (map_of d (lit ''packages'')) \<and>
     entries_ok is_dict (map_of d (lit ''remotes''))"

section \<open>Basic facts\<close>

lemma and_then_Inl [simp]: "and_then (Inl e) f = Inl e"
  by (simp add: and_then_def)

lemma and_then_Inr [simp]: "and_then (Inr x) f = f x"
  by (simp add: and_then_def)

lemma and_then_eq_Inr: "and_then m f = Inr r \<longleftrightarrow> (\<exists>x. m = Inr x \<and> f x = Inr r)"
  by (cases m) auto

lemma both_pair [simp]: "both (a, b) (c, d) = (a @ c, b @ d)"
  by (simp add: both_def)

lemma lit_simps [simp]:
  "lit [] = []" "lit (c # s) = of_char c # lit s" "lit (a @ b) = lit a @ lit b"
  by (simp_all add: lit_def)

lemma lit_eq [simp]: "lit a = lit b \<longleftrightarrow> a = b"
  by (simp add: lit_def inj_map_eq_map inj_of_char)

lemma digit_nth_value:
  assumes "n < 10"
  shows "of_char (digit_chars ! n) - 48 = n"
proof -
  from assms have "n \<in> {0, 1, 2, 3, 4, 5, 6, 7, 8, 9}" by auto
  then show ?thesis by (auto simp: digit_chars_def)
qed

lemma digit_nth_mem: "n < 10 \<Longrightarrow> digit_chars ! n \<in> set digit_chars"
  by (rule nth_mem) (simp add: digit_chars_def)

lemma str_nat_digits: "set (str_nat n) \<subseteq> set digit_chars"
proof (induction n rule: str_nat.induct)
  case (1 n)
  show ?case
  proof (cases "n < 10")
    case True
    then show ?thesis by (simp add: str_nat.simps [of n] digit_nth_mem)
  next
    case False
    with 1 show ?thesis by (simp add: str_nat.simps [of n] digit_nth_mem)
  qed
qed

lemma nat_of_str_nat: "nat_of_str (str_nat n) = n"
proof (induction n rule: str_nat.induct)
  case (1 n)
  show ?case
  proof (cases "n < 10")
    case True
    then show ?thesis by (simp add: str_nat.simps [of n] nat_of_str_def digit_nth_value)
  next
    case False
    with 1 have "nat_of_str (str_nat (n div 10)) = n div 10" by simp
    with False show ?thesis
      by (simp add: str_nat.simps [of n] nat_of_str_def digit_nth_value)
  qed
qed

lemma str_nat_inj: "str_nat m = str_nat n \<Longrightarrow> m = n"
  by (metis nat_of_str_nat)

lemma digits_then_sep:
  assumes "xs @ c # r = ys @ c' # r'" "set xs \<subseteq> D" "set ys \<subseteq> D" "c \<notin> D" "c' \<notin> D"
  shows "xs = ys"
  using assms
proof (induction xs arbitrary: ys)
  case Nil
  then show ?case by (cases ys) auto
next
  case (Cons x xs)
  then show ?case by (cases ys) auto
qed

lemma str_nat_sep:
  assumes "str_nat i @ c # r = str_nat j @ c' # r'"
    and "c \<notin> set digit_chars" "c' \<notin> set digit_chars"
  shows "i = j"
  using digits_then_sep [OF assms(1) str_nat_digits str_nat_digits assms(2,3)]
  by (rule str_nat_inj)

lemma lit_str_nat_sep:
  assumes "lit (str_nat i) @ c # r = lit (str_nat j) @ c' # r'"
    and "c \<notin> set (lit digit_chars)" "c' \<notin> set (lit digit_chars)"
  shows "i = j"
proof -
  have "set (lit (str_nat n)) \<subseteq> set (lit digit_chars)" for n
    using str_nat_digits [of n] by (auto simp: lit_def)
  from digits_then_sep [OF assms(1) this this assms(2,3)] have "str_nat i = str_nat j" by simp
  then show ?thesis by (rule str_nat_inj)
qed

lemma for_each_enumerate:
  "for_each (\<lambda>(i, x). body i x) (enumerate n xs) = Inr r \<Longrightarrow>
   \<exists>ds. length ds = length xs \<and> (\<forall>j<length xs. body (n + j) (xs ! j) = Inr (ds ! j)) \<and>
        r = (concat (map fst ds), concat (map snd ds))"
proof (induction xs arbitrary: n r)
  case Nil
  then show ?case by simp
next
  case (Cons x xs)
  from Cons.prems obtain d d' where d: "body n x = Inr d"
    and d': "for_each (\<lambda>(i, x). body i x) (enumerate (Suc n) xs) = Inr d'"
    and r: "r = both d d'"
    by (auto simp: and_then_eq_Inr)
  from Cons.IH [OF d'] obtain ds where ds: "length ds = length xs"
    "\<forall>j<length xs. body (Suc n + j) (xs ! j) = Inr (ds ! j)"
    "d' = (concat (map fst ds), concat (map snd ds))" by blast
  have "\<forall>j<length (x # xs). body (n + j) ((x # xs) ! j) = Inr ((d # ds) ! j)"
    using d ds(2) by (auto simp: nth_Cons split: nat.splits)
  moreover have "r = (concat (map fst (d # ds)), concat (map snd (d # ds)))"
    using r ds(3) by (simp add: both_def)
  ultimately show ?case using ds(1)
    by (intro exI [of _ "d # ds"]) simp
qed

lemma filter_concat_only:
  assumes "i < length xss" "\<forall>j<length xss. j \<noteq> i \<longrightarrow> filter P (xss ! j) = []"
  shows "filter P (concat xss) = filter P (xss ! i)"
  using assms
proof (induction xss arbitrary: i)
  case Nil
  then show ?case by simp
next
  case (Cons xs xss)
  show ?case
  proof (cases i)
    case 0
    have "\<forall>ys\<in>set xss. filter P ys = []"
    proof
      fix ys assume "ys \<in> set xss"
      then obtain j where "j < length xss" "xss ! j = ys" by (auto simp: in_set_conv_nth)
      with Cons.prems(2) [rule_format, of "Suc j"] 0 show "filter P ys = []" by simp
    qed
    then have "filter P (concat xss) = []" by (induction xss) auto
    with 0 show ?thesis by simp
  next
    case (Suc k)
    from Cons.prems(2) [rule_format, of 0] Suc have "filter P xs = []" by simp
    moreover have "filter P (concat xss) = filter P (xss ! k)"
    proof (rule Cons.IH)
      show "k < length xss" using Cons.prems(1) Suc by simp
      show "\<forall>j<length xss. j \<noteq> k \<longrightarrow> filter P (xss ! j) = []"
        using Cons.prems(2) Suc by (metis Suc_less_eq length_Cons nat.inject nth_Cons_Suc)
    qed
    ultimately show ?thesis using Suc by simp
  qed
qed

subsection \<open>The blocks of the validator on a dict\<close>

lemma required_block:
  "for_each (required_field (JObj d)) fs = Inr (concat (map (required_msgs d) fs), [])"
  by (induction fs) (auto simp: required_field_def required_msgs_def split: option.splits)

lemma recommended_block:
  "for_each (recommended_field (JObj d)) fs = Inr ([], concat (map (recommended_msgs d) fs))"
  by (induction fs) (auto simp: recommended_field_def recommended_msgs_def)

lemma check_name_no_errors: "check_name pr config = Inr (e, w) \<Longrightarrow> e = []"
  by (auto simp: check_name_def and_then_eq_Inr split: if_splits)

lemma validate_dict_blocks:
  assumes "validate_server_json pr (JObj d) = Inr (errs, warns)"
  obtains nw hp hr pe pw re rw qe qw where
    "check_name pr (JObj d) = Inr ([], nw)"
    "has_entries (JObj d) (lit ''packages'') = Inr hp"
    "has_entries (JObj d) (lit ''remotes'') = Inr hr"
    "(if hp then check_packages pr (JObj d) else Inr ([], [])) = Inr (pe, pw)"
    "(if hr then check_remotes pr (JObj d) else Inr ([], [])) = Inr (re, rw)"
    "check_repository (JObj d) = Inr (qe, qw)"
    "errs = concat (map (required_msgs d) required_fields) @ fst (check_deployment hp hr) @
            pe @ re @ qe"
    "warns = nw @ pw @ rw @ concat (map (recommended_msgs d) recommended_fields) @ qw"
proof -
  from assms obtain d2 hp hr d4 d5 d7 where
    b: "check_name pr (JObj d) = Inr d2"
      "has_entries (JObj d) (lit ''packages'') = Inr hp"
      "has_entries (JObj d) (lit ''remotes'') = Inr hr"
      "(if hp then check_packages pr (JObj d) else Inr ([], [])) = Inr d4"
      "(if hr then check_remotes pr (JObj d) else Inr ([], [])) = Inr d5"
      "check_repository (JObj d) = Inr d7"
    and r: "(errs, warns) =
      both (concat (map (required_msgs d) required_fields), [])
        (both d2 (both (check_deployment hp hr)
          (both d4 (both d5 (both ([], concat (map (recommended_msgs d) recommended_fields)) d7)))))"
    unfolding validate_server_json_def required_block recommended_block and_then_Inr
    by (auto simp only: and_then_eq_Inr)
  from b(1) obtain nw where d2: "d2 = ([], nw)"
    by (cases d2) (auto dest: check_name_no_errors)
  obtain pe pw re rw qe qw where ds: "d4 = (pe, pw)" "d5 = (re, rw)" "d7 = (qe, qw)"
    by (cases d4, cases d5, cases d7) auto
  have "snd (check_deployment hp hr) = []" by (simp add: check_deployment_def)
  with r have
    "errs = concat (map (required_msgs d) required_fields) @ fst (check_deployment hp hr) @
            pe @ re @ qe"
    "warns = nw @ pw @ rw @ concat (map (recommended_msgs d) recommended_fields) @ qw"
    unfolding d2 ds by (simp_all add: both_def)
  with b show thesis
    unfolding d2 ds by (rule that)
qed

lemma has_entries_dict:
  assumes "has_entries (JObj d) k = Inr h"
  shows "h = truthy (dict_get d k JNull)"
  using assms
  by (auto simp: has_entries_def dict_get_def and_then_eq_Inr split: option.splits if_splits)
     (case_tac x2; simp)+

subsection \<open>Every message of an entry names the entry\<close>

lemma for_each_all:
  assumes "for_each body xs = Inr (e, w)"
    and "\<And>x e' w'. x \<in> set xs \<Longrightarrow> body x = Inr (e', w') \<Longrightarrow>
           (\<forall>m\<in>set e'. P m) \<and> (\<forall>m\<in>set w'. Q m)"
  shows "(\<forall>m\<in>set e. P m) \<and> (\<forall>m\<in>set w. Q m)"
  using assms
proof (induction xs arbitrary: e w)
  case Nil
  then show ?case by simp
next
  case (Cons x xs)
  from Cons.prems(1) obtain e1 w1 e2 w2 where
    s: "body x = Inr (e1, w1)" "for_each body xs = Inr (e2, w2)" "e = e1 @ e2" "w = w1 @ w2"
    by (auto simp: and_then_eq_Inr)
  from Cons.prems(2) [OF _ s(1)] have "(\<forall>m\<in>set e1. P m) \<and> (\<forall>m\<in>set w1. Q m)" by simp
  moreover have "(\<forall>m\<in>set e2. P m) \<and> (\<forall>m\<in>set w2. Q m)"
  proof (rule Cons.IH [OF s(2)])
    fix y e' w'
    assume "y \<in> set xs" "body y = Inr (e', w')"
    then show "(\<forall>m\<in>set e'. P m) \<and> (\<forall>m\<in>set w'. Q m)"
      using Cons.prems(2) [of y e' w'] by simp
  qed
  ultimately show ?case using s(3,4) by auto
qed

lemma platform_msg_about: "about_platforms_of idx (platform_prefix idx pidx @ m)"
  by (simp add: about_platforms_of_def platform_prefix_def pkg_prefix_def)

lemma mcpb_msg_about: "about_package idx (msg_mcpb_missing idx f k)"
  by (simp add: about_package_def msg_mcpb_missing_def)

lemma pkg_msg_about: "about_package idx (pkg_prefix idx @ msg_missing_quoted f)"
  "about_package idx (msg_unknown_type pr idx t)"
  by (simp_all add: about_package_def msg_missing_quoted_def msg_unknown_type_def)

lemma remote_msg_about: "about_remote idx (remote_prefix idx @ msg_missing_quoted f)"
  "about_remote idx (msg_unknown_transport pr idx t)"
  by (simp_all add: about_remote_def msg_missing_quoted_def msg_unknown_transport_def)

lemma about_platforms_package: "about_platforms_of idx m \<Longrightarrow> about_package idx m"
  by (simp add: about_platforms_of_def about_package_def)

lemma check_platform_about:
  assumes "check_platform idx pidx platform = Inr (e, w)"
  shows "(\<forall>m\<in>set e. about_platforms_of idx m) \<and> (\<forall>m\<in>set w. False)"
proof -
  from assms obtain a b c d where
    "e = (if \<not> a then [platform_prefix idx pidx @ msg_missing_quoted (lit ''os'')] else []) @
         (if \<not> b then [platform_prefix idx pidx @ msg_missing_quoted (lit ''arch'')] else []) @
         (if \<not> c then [platform_prefix idx pidx @ msg_missing_quoted (lit ''uri'')] else []) @
         (if \<not> d then [platform_prefix idx pidx @ msg_missing_quoted (lit ''sha256'')] else [])"
    "w = []"
    unfolding check_platform_def by (auto simp only: and_then_eq_Inr sum.inject prod.inject)
  then show ?thesis by (auto simp: platform_msg_about)
qed

lemma platforms_about:
  assumes "for_each (\<lambda>(pidx, platform). check_platform idx pidx platform) xs = Inr (e, w)"
  shows "(\<forall>m\<in>set e. about_platforms_of idx m) \<and> (\<forall>m\<in>set w. False)"
  by (rule for_each_all [OF assms]) (auto dest: check_platform_about)

lemma check_mcpb_about:
  assumes "check_mcpb idx package = Inr (e, w)"
  shows "(\<forall>m\<in>set e. about_package idx m) \<and> w = []"
proof -
  from assms obtain hu hs np dd where
    np: "(if np then Inr ([msg_mcpb_missing idx (lit ''platforms'') (lit ''array'')], [])
          else and_then (getitem package (lit ''platforms'')) (\<lambda>platforms.
               and_then (py_iter platforms) (\<lambda>ps.
                 for_each (\<lambda>(pidx, platform). check_platform idx pidx platform)
                   (enumerate 0 ps)))) = Inr dd"
    and r: "both ((if \<not> hu then [msg_mcpb_missing idx (lit ''uri'') (lit ''field'')] else []) @
                  (if \<not> hs then [msg_mcpb_missing idx (lit ''sha256'') (lit ''field'')] else []), []) dd = (e, w)"
    unfolding check_mcpb_def by (auto simp only: and_then_eq_Inr sum.inject)
  obtain e' w' where dd: "dd = (e', w')" by (cases dd)
  from r have d: "e = (if \<not> hu then [msg_mcpb_missing idx (lit ''uri'') (lit ''field'')] else []) @
            (if \<not> hs then [msg_mcpb_missing idx (lit ''sha256'') (lit ''field'')] else []) @ e'"
       "w = w'"
    unfolding dd by (auto simp: both_def)
  have c: "(e', w') = ([msg_mcpb_missing idx (lit ''platforms'') (lit ''array'')], []) \<or>
       (\<exists>xs. for_each (\<lambda>(pidx, platform). check_platform idx pidx platform) xs = Inr (e', w'))"
  proof (cases np)
    case True
    with np show ?thesis unfolding dd by simp
  next
    case False
    with np obtain ps where
      "for_each (\<lambda>(pidx, platform). check_platform idx pidx platform) (enumerate 0 ps) = Inr dd"
      by (auto simp only: and_then_eq_Inr if_False)
    then show ?thesis unfolding dd by blast
  qed
  from c have "(\<forall>m\<in>set e'. about_package idx m) \<and> w' = []"
  proof
    assume "(e', w') = ([msg_mcpb_missing idx (lit ''platforms'') (lit ''array'')], [])"
    then show ?thesis by (simp add: mcpb_msg_about)
  next
    assume "\<exists>xs. for_each (\<lambda>(pidx, platform). check_platform idx pidx platform) xs = Inr (e', w')"
    then obtain xs where
      "for_each (\<lambda>(pidx, platform). check_platform idx pidx platform) xs = Inr (e', w')" ..
    from platforms_about [OF this] show ?thesis
      by (cases w') (auto intro: about_platforms_package)
  qed
  with d show ?thesis by (auto simp: mcpb_msg_about)
qed

lemma check_type_about:
  "(\<forall>m\<in>set (fst (check_type pr idx t)). about_package idx m) \<and>
   (\<forall>m\<in>set (snd (check_type pr idx t)). about_package idx m)"
  by (simp add: check_type_def pkg_msg_about)

lemma check_package_about:
  assumes "check_package pr idx package = Inr (e, w)"
  shows "(\<forall>m\<in>set e. about_package idx m) \<and> (\<forall>m\<in>set w. about_package idx m)"
proof -
  from assms obtain t d where
    t: "(if t = JStr (lit ''mcpb'') then check_mcpb idx package else Inr ([], [])) = Inr d"
    and r: "(e, w) = both (check_type pr idx t) d"
    unfolding check_package_def by (auto simp: and_then_eq_Inr)
  obtain e' w' where d: "d = (e', w')" by (cases d)
  from t have "(\<forall>m\<in>set e'. about_package idx m) \<and> w' = []"
    unfolding d by (auto dest: check_mcpb_about split: if_splits)
  with r check_type_about [of pr idx t] show ?thesis
    unfolding d by (auto simp: both_def)
qed

lemma check_remote_about:
  assumes "check_remote pr idx remote = Inr (e, w)"
  shows "(\<forall>m\<in>set e. about_remote idx m) \<and> (\<forall>m\<in>set w. about_remote idx m)"
  using assms
  by (auto simp: check_remote_def and_then_eq_Inr remote_msg_about both_def split: if_splits)

lemma colon_comma_not_digits:
  "of_char (CHR '':'') \<notin> set (lit digit_chars)" "of_char (CHR '','') \<notin> set (lit digit_chars)"
  by (simp_all add: digit_chars_def)

lemma about_package_unique:
  assumes "about_package i m" "about_package j m"
  shows "i = j"
proof -
  from assms(1) obtain c r where
    i: "m = lit ''Package '' @ lit (str_nat i) @ c # r" "c \<notin> set (lit digit_chars)"
    unfolding about_package_def pkg_prefix_def prefix_def
    using colon_comma_not_digits by auto
  from assms(2) obtain c' r' where
    j: "m = lit ''Package '' @ lit (str_nat j) @ c' # r'" "c' \<notin> set (lit digit_chars)"
    unfolding about_package_def pkg_prefix_def prefix_def
    using colon_comma_not_digits by auto
  from i(1) [symmetric] j(1) have
    "lit ''Package '' @ lit (str_nat i) @ c # r = lit ''Package '' @ lit (str_nat j) @ c' # r'"
    by (rule trans)
  then have "lit (str_nat i) @ c # r = lit (str_nat j) @ c' # r'" by simp
  then show ?thesis using i(2) j(2) by (rule lit_str_nat_sep)
qed

lemma about_remote_unique:
  assumes "about_remote i m" "about_remote j m"
  shows "i = j"
proof -
  from assms(1) obtain r where i: "m = lit ''Remote '' @ lit (str_nat i) @ of_char (CHR '':'') # r"
    unfolding about_remote_def remote_prefix_def prefix_def by auto
  from assms(2) obtain r' where j: "m = lit ''Remote '' @ lit (str_nat j) @ of_char (CHR '':'') # r'"
    unfolding about_remote_def remote_prefix_def prefix_def by auto
  from i [symmetric] j have
    "lit ''Remote '' @ lit (str_nat i) @ of_char (CHR '':'') # r =
     lit ''Remote '' @ lit (str_nat j) @ of_char (CHR '':'') # r'"
    by (rule trans)
  then have "lit (str_nat i) @ of_char (CHR '':'') # r = lit (str_nat j) @ of_char (CHR '':'') # r'"
    by simp
  then show ?thesis using colon_comma_not_digits(1) colon_comma_not_digits(1)
    by (rule lit_str_nat_sep)
qed

lemma entry_messages:
  assumes run: "for_each (\<lambda>(i, x). body i x) (enumerate 0 xs) = Inr (es, ws)"
    and about: "\<And>j x e w. body j x = Inr (e, w) \<Longrightarrow>
                  (\<forall>m\<in>set e. about j m) \<and> (\<forall>m\<in>set w. about j m)"
    and unique: "\<And>i j m. about i m \<Longrightarrow> about j m \<Longrightarrow> i = j"
    and i: "i < length xs" "body i (xs ! i) = Inr (e, w)"
  shows "filter (about i) es = e \<and> filter (about i) ws = w"
proof -
  from for_each_enumerate [OF run] obtain ds where
    ds: "length ds = length xs" "\<forall>j<length xs. body (0 + j) (xs ! j) = Inr (ds ! j)"
    and r: "(es, ws) = (concat (map fst ds), concat (map snd ds))" by blast
  from ds(2) i have dsi: "ds ! i = (e, w)" by simp
  have other: "filter (about i) (fst (ds ! j)) = [] \<and> filter (about i) (snd (ds ! j)) = []"
    if "j < length xs" "j \<noteq> i" for j
  proof -
    from ds(2) that(1) have "body j (xs ! j) = Inr (fst (ds ! j), snd (ds ! j))" by simp
    from about [OF this] that(2) show ?thesis
      by (auto simp: filter_empty_conv dest: unique)
  qed
  from about [OF i(2)] have own: "filter (about i) e = e" "filter (about i) w = w"
    by (simp_all add: filter_id_conv)
  have "filter (about i) (concat (map fst ds)) = filter (about i) (map fst ds ! i)"
    by (rule filter_concat_only) (use i(1) ds(1) other in auto)
  moreover have "filter (about i) (concat (map snd ds)) = filter (about i) (map snd ds ! i)"
    by (rule filter_concat_only) (use i(1) ds(1) other in auto)
  ultimately show ?thesis using r dsi own i(1) ds(1) by simp
qed

subsection \<open>The messages of different blocks start differently\<close>

lemma required_kind:
  "m \<in> set (concat (map (required_msgs d) fs)) \<Longrightarrow> take 3 m = lit ''Mis'' \<or> take 3 m = lit ''Fie''"
  by (auto simp: required_msgs_def msg_missing_required_def msg_empty_required_def
        split: option.splits if_splits)

lemma recommended_kind:
  "m \<in> set (concat (map (recommended_msgs d) fs)) \<Longrightarrow> take 3 m = lit ''Rec''"
  by (auto simp: recommended_msgs_def msg_recommended_def split: if_splits)

lemma deployment_kind: "m \<in> set (fst (check_deployment a b)) \<Longrightarrow> take 3 m = lit ''Mus''"
  by (auto simp: check_deployment_def msg_no_deployment_def split: if_splits)

lemma name_msgs_kind:
  "is_name_warning (msg_name_namespace n)" "is_name_warning (msg_name_slash n)"
  by (simp_all add: is_name_warning_def msg_name_namespace_def msg_name_slash_def)

lemma check_name_warnings:
  assumes "check_name pr config = Inr (e, w)"
  shows "\<exists>n a b. w = [] \<or> w = (if \<not> a then [msg_name_namespace n] else []) @
                  (if \<not> b then [msg_name_slash n] else [])"
proof -
  from assms obtain present where
    p: "(if \<not> present then Inr ([], [])
       else and_then (getitem config (lit ''name'')) (\<lambda>name.
         and_then (startswith name (lit ''io.github.'')) (\<lambda>io.
         and_then (if io then Inr True else startswith name (lit ''com.'')) (\<lambda>namespaced.
         and_then (contains (lit ''/'') name) (\<lambda>slash.
           Inr ([], (if \<not> namespaced then [msg_name_namespace (py_str pr name)] else []) @
                    (if \<not> slash then [msg_name_slash (py_str pr name)] else []))))))) = Inr (e, w)"
    unfolding check_name_def and_then_eq_Inr by blast
  show ?thesis
  proof (cases present)
    case False
    with p show ?thesis by simp
  next
    case True
    with p obtain name a b where
      "w = (if \<not> a then [msg_name_namespace (py_str pr name)] else []) @
           (if \<not> b then [msg_name_slash (py_str pr name)] else [])"
      by (auto simp: and_then_eq_Inr)
    then show ?thesis by blast
  qed
qed

lemma name_kind:
  assumes "check_name pr config = Inr (e, w)" "m \<in> set w"
  shows "is_name_warning m"
  using check_name_warnings [OF assms(1)] assms(2)
  by (auto simp: name_msgs_kind split: if_splits)

lemma repository_kind:
  assumes "check_repository config = Inr (e, w)" "m \<in> set e \<union> set w"
  shows "take 3 m = lit ''Rep''"
  using assms
  by (auto simp: check_repository_def and_then_eq_Inr split: if_splits)

lemma about_package_kind: "about_package i m \<Longrightarrow> take 3 m = lit ''Pac''"
  by (auto simp: about_package_def pkg_prefix_def prefix_def)

lemma about_remote_kind: "about_remote i m \<Longrightarrow> take 3 m = lit ''Rem''"
  by (auto simp: about_remote_def remote_prefix_def prefix_def)

lemma name_warning_kind: "is_name_warning m \<Longrightarrow> take 3 m = lit ''Nam''"
  by (auto simp: is_name_warning_def prefix_def)

lemma packages_kind:
  assumes "(if hp then check_packages pr config else Inr ([], [])) = Inr (e, w)"
  shows "(\<forall>m\<in>set e. take 3 m = lit ''Pac'') \<and> (\<forall>m\<in>set w. take 3 m = lit ''Pac'')"
proof (cases hp)
  case True
  with assms obtain ps where
    "for_each (\<lambda>(idx, package). check_package pr idx package) (enumerate 0 ps) = Inr (e, w)"
    by (auto simp: check_packages_def and_then_eq_Inr)
  then show ?thesis
    by (rule for_each_all) (auto dest!: check_package_about dest!: about_package_kind)
next
  case False
  with assms show ?thesis by simp
qed

lemma remotes_kind:
  assumes "(if hr then check_remotes pr config else Inr ([], [])) = Inr (e, w)"
  shows "(\<forall>m\<in>set e. take 3 m = lit ''Rem'') \<and> (\<forall>m\<in>set w. take 3 m = lit ''Rem'')"
proof (cases hr)
  case True
  with assms obtain rs where
    "for_each (\<lambda>(idx, remote). check_remote pr idx remote) (enumerate 0 rs) = Inr (e, w)"
    by (auto simp: check_remotes_def and_then_eq_Inr)
  then show ?thesis
    by (rule for_each_all) (auto dest!: check_remote_about dest!: about_remote_kind)
next
  case False
  with assms show ?thesis by simp
qed

section \<open>Required fields: missing or empty, never both\<close>

lemma errs_split:
  assumes "validate_server_json pr (JObj d) = Inr (errs, warns)"
    and "take 3 m = lit ''Mis'' \<or> take 3 m = lit ''Fie''"
  shows "m \<in> set errs \<longleftrightarrow> m \<in> set (concat (map (required_msgs d) required_fields))"
proof -
  from assms(1) obtain nw hp hr pe pw re rw qe qw where
    b: "(if hp then check_packages pr (JObj d) else Inr ([], [])) = Inr (pe, pw)"
      "(if hr then check_remotes pr (JObj d) else Inr ([], [])) = Inr (re, rw)"
      "check_repository (JObj d) = Inr (qe, qw)"
    and e: "errs = concat (map (required_msgs d) required_fields) @ fst (check_deployment hp hr) @
            pe @ re @ qe"
    by (rule validate_dict_blocks)
  from assms(2) have "m \<notin> set (fst (check_deployment hp hr))" "m \<notin> set pe" "m \<notin> set re" "m \<notin> set qe"
    using packages_kind [OF b(1)] remotes_kind [OF b(2)] repository_kind [OF b(3), of m]
      deployment_kind [of m hp hr]
    by auto
  with e show ?thesis by auto
qed

lemma required_msg_eq [simp]:
  "msg_missing_required f = msg_missing_required g \<longleftrightarrow> f = g"
  "msg_empty_required f = msg_empty_required g \<longleftrightarrow> f = g"
  "msg_missing_required f \<noteq> msg_empty_required g"
  "msg_empty_required f \<noteq> msg_missing_required g"
  by (simp_all add: msg_missing_required_def msg_empty_required_def)

lemma missing_in_required_msgs:
  "msg_missing_required f \<in> set (concat (map (required_msgs d) fs)) \<longleftrightarrow>
   f \<in> set fs \<and> map_of d f = None"
  by (auto simp: required_msgs_def split: option.splits if_splits)

lemma empty_in_required_msgs:
  "msg_empty_required f \<in> set (concat (map (required_msgs d) fs)) \<longleftrightarrow>
   f \<in> set fs \<and> (\<exists>v. map_of d f = Some v \<and> \<not> truthy v)"
  by (auto simp: required_msgs_def split: option.splits if_splits)

lemma required_errors_when_returned:
  assumes "validate_server_json pr (JObj d) = Inr (errs, warns)"
    and "field \<in> set required_fields"
  shows "(msg_missing_required field \<in> set errs \<longleftrightarrow> map_of d field = None) \<and>
         (msg_empty_required field \<in> set errs \<longleftrightarrow> (\<exists>v. map_of d field = Some v \<and> \<not> truthy v)) \<and>
         \<not> (msg_missing_required field \<in> set errs \<and> msg_empty_required field \<in> set errs)"
proof -
  have "msg_missing_required field \<in> set errs \<longleftrightarrow>
        msg_missing_required field \<in> set (concat (map (required_msgs d) required_fields))"
    by (rule errs_split [OF assms(1)]) (simp add: msg_missing_required_def)
  with assms(2) have missing: "msg_missing_required field \<in> set errs \<longleftrightarrow> map_of d field = None"
    by (simp only: missing_in_required_msgs simp_thms)
  have "msg_empty_required field \<in> set errs \<longleftrightarrow>
        msg_empty_required field \<in> set (concat (map (required_msgs d) required_fields))"
    by (rule errs_split [OF assms(1)]) (simp add: msg_empty_required_def)
  with assms(2) have empty: "msg_empty_required field \<in> set errs \<longleftrightarrow>
    (\<exists>v. map_of d field = Some v \<and> \<not> truthy v)"
    by (simp only: empty_in_required_msgs simp_thms)
  from missing empty show ?thesis by auto
qed

section \<open>Deployment presence\<close>

lemma deployment_error_iff:
  assumes "validate_server_json pr (JObj d) = Inr (errs, warns)"
  shows "msg_no_deployment \<in> set errs \<longleftrightarrow>
         \<not> truthy (dict_get d (lit ''packages'') JNull) \<and> \<not> truthy (dict_get d (lit ''remotes'') JNull)"
proof -
  from assms obtain nw hp hr pe pw re rw qe qw where
    h: "has_entries (JObj d) (lit ''packages'') = Inr hp" "has_entries (JObj d) (lit ''remotes'') = Inr hr"
    and b: "(if hp then check_packages pr (JObj d) else Inr ([], [])) = Inr (pe, pw)"
      "(if hr then check_remotes pr (JObj d) else Inr ([], [])) = Inr (re, rw)"
      "check_repository (JObj d) = Inr (qe, qw)"
    and e: "errs = concat (map (required_msgs d) required_fields) @ fst (check_deployment hp hr) @
            pe @ re @ qe"
    by (rule validate_dict_blocks)
  have k: "take 3 msg_no_deployment = lit ''Mus''" by (simp add: msg_no_deployment_def)
  have "msg_no_deployment \<notin> set (concat (map (required_msgs d) required_fields))"
    using required_kind [of msg_no_deployment d required_fields] k by auto
  moreover have "msg_no_deployment \<notin> set pe" "msg_no_deployment \<notin> set re"
    "msg_no_deployment \<notin> set qe"
    using packages_kind [OF b(1)] remotes_kind [OF b(2)]
      repository_kind [OF b(3), of msg_no_deployment] k
    by auto
  ultimately have "msg_no_deployment \<in> set errs \<longleftrightarrow>
      msg_no_deployment \<in> set (fst (check_deployment hp hr))"
    using e by simp
  also have "\<dots> \<longleftrightarrow> \<not> hp \<and> \<not> hr" by (simp add: check_deployment_def)
  finally show ?thesis
    using has_entries_dict [OF h(1)] has_entries_dict [OF h(2)] by simp
qed

lemma deployment_when_returned:
  assumes "validate_server_json pr (JObj d) = Inr (errs, warns)"
  shows "((map_of d (lit ''packages'') = None \<or> map_of d (lit ''packages'') = Some (JArr [])) \<and>
          (map_of d (lit ''remotes'') = None \<or> map_of d (lit ''remotes'') = Some (JArr []))
            \<longrightarrow> msg_no_deployment \<in> set errs) \<and>
         ((\<exists>ps. map_of d (lit ''packages'') = Some (JArr ps) \<and> ps \<noteq> []) \<or>
          (\<exists>rs. map_of d (lit ''remotes'') = Some (JArr rs) \<and> rs \<noteq> [])
            \<longrightarrow> msg_no_deployment \<notin> set errs)"
  unfolding deployment_error_iff [OF assms]
  by (auto simp: dict_get_def)

section \<open>Name format\<close>

lemma sublist_single: "sublist [c] s \<longleftrightarrow> c \<in> set s"
  by (auto simp: sublist_def in_set_conv_decomp)

lemma check_name_str:
  assumes "map_of d (lit ''name'') = Some (JStr n)"
  shows "check_name pr (JObj d) =
     Inr ([], (if \<not> (prefix (lit ''io.github.'') n \<or> prefix (lit ''com.'') n) then [msg_name_namespace n] else []) @
              (if of_char (CHR ''/'') \<notin> set n then [msg_name_slash n] else []))"
  using assms by (simp add: check_name_def sublist_single)

lemma filter_other_kind:
  assumes "\<forall>m\<in>set xs. take 3 m = k" "\<And>m. P m \<Longrightarrow> take 3 m = k'" "k \<noteq> k'"
  shows "filter P xs = []"
  using assms by (auto simp: filter_empty_conv)

lemma name_warnings_of:
  assumes "validate_server_json pr (JObj d) = Inr (errs, warns)"
  shows "check_name pr (JObj d) = Inr ([], filter is_name_warning warns)"
proof -
  from assms obtain nw hp hr pe pw re rw qe qw where
    n: "check_name pr (JObj d) = Inr ([], nw)"
    and b: "(if hp then check_packages pr (JObj d) else Inr ([], [])) = Inr (pe, pw)"
      "(if hr then check_remotes pr (JObj d) else Inr ([], [])) = Inr (re, rw)"
      "check_repository (JObj d) = Inr (qe, qw)"
    and w: "warns = nw @ pw @ rw @ concat (map (recommended_msgs d) recommended_fields) @ qw"
    by (rule validate_dict_blocks)
  have "filter is_name_warning nw = nw"
    using name_kind [OF n] by (simp add: filter_id_conv)
  moreover have "filter is_name_warning pw = []"
    using packages_kind [OF b(1)] by (intro filter_other_kind [OF _ name_warning_kind]) auto
  moreover have "filter is_name_warning rw = []"
    using remotes_kind [OF b(2)] by (intro filter_other_kind [OF _ name_warning_kind]) auto
  moreover have "filter is_name_warning qw = []"
    using repository_kind [OF b(3)] by (intro filter_other_kind [OF _ name_warning_kind]) auto
  moreover have "filter is_name_warning (concat (map (recommended_msgs d) recommended_fields)) = []"
    using recommended_kind [of _ d recommended_fields]
    by (intro filter_other_kind [OF _ name_warning_kind]) auto
  ultimately show ?thesis using n w by simp
qed

text \<open>
  C5. Whenever the validator returns on a mapping whose \<^verbatim>\<open>name\<close> is a string \<open>n\<close>, the
  name-format warnings among its warnings are: the namespace warning when \<open>n\<close> starts with
  neither \<^verbatim>\<open>io.github.\<close> nor \<^verbatim>\<open>com.\<close>, then the slash warning when \<open>n\<close> has no \<^verbatim>\<open>/\<close>,
  each decided on its own. So \<^verbatim>\<open>io.github.acme/tool\<close> and \<^verbatim>\<open>com.acme/tool\<close> give no
  name-format warning and \<^verbatim>\<open>acme-tool\<close> gives both.
\<close>

theorem name_format_warnings:
  assumes "validate_server_json pr (JObj d) = Inr (errs, warns)"
  shows "(\<forall>n. map_of d (lit ''name'') = Some (JStr n) \<longrightarrow>
            filter is_name_warning warns =
              (if \<not> (prefix (lit ''io.github.'') n \<or> prefix (lit ''com.'') n) then [msg_name_namespace n] else []) @
              (if of_char (CHR ''/'') \<notin> set n then [msg_name_slash n] else [])) \<and>
         (map_of d (lit ''name'') = Some (JStr (lit ''io.github.acme/tool'')) \<longrightarrow>
            filter is_name_warning warns = []) \<and>
         (map_of d (lit ''name'') = Some (JStr (lit ''acme-tool'')) \<longrightarrow>
            filter is_name_warning warns =
              [msg_name_namespace (lit ''acme-tool''), msg_name_slash (lit ''acme-tool'')]) \<and>
         (map_of d (lit ''name'') = Some (JStr (lit ''com.acme/tool'')) \<longrightarrow>
            filter is_name_warning warns = [])"
proof -
  have g: "filter is_name_warning warns =
      (if \<not> (prefix (lit ''io.github.'') n \<or> prefix (lit ''com.'') n) then [msg_name_namespace n] else []) @
      (if of_char (CHR ''/'') \<notin> set n then [msg_name_slash n] else [])"
    if "map_of d (lit ''name'') = Some (JStr n)" for n
    using name_warnings_of [OF assms] check_name_str [OF that] by simp
  show ?thesis
  proof (intro conjI allI impI)
    fix n assume "map_of d (lit ''name'') = Some (JStr n)"
    then show "filter is_name_warning warns =
      (if \<not> (prefix (lit ''io.github.'') n \<or> prefix (lit ''com.'') n) then [msg_name_namespace n] else []) @
      (if of_char (CHR ''/'') \<notin> set n then [msg_name_slash n] else [])" by (rule g)
  next
    assume "map_of d (lit ''name'') = Some (JStr (lit ''io.github.acme/tool''))"
    from g [OF this] show "filter is_name_warning warns = []" by simp
  next
    assume "map_of d (lit ''name'') = Some (JStr (lit ''acme-tool''))"
    from g [OF this] show "filter is_name_warning warns =
      [msg_name_namespace (lit ''acme-tool''), msg_name_slash (lit ''acme-tool'')]" by simp
  next
    assume "map_of d (lit ''name'') = Some (JStr (lit ''com.acme/tool''))"
    from g [OF this] show "filter is_name_warning warns = []" by simp
  qed
qed

theorem name_format_warnings_witness:
  "validate_server_json latin1_printable (JObj [(lit ''name'', JStr (lit ''acme-tool'')), (lit ''version'', JStr (lit ''1'')),
      (lit ''description'', JStr (lit ''A tool'')), (lit ''packages'', JArr [JObj [(lit ''type'', JStr (lit ''npm''))]])]) =
     Inr ([], [msg_name_namespace (lit ''acme-tool''), msg_name_slash (lit ''acme-tool''),
               msg_recommended (lit ''license''), msg_recommended (lit ''homepage''),
               msg_recommended (lit ''repository'')]) \<and>
   filter is_name_warning
     [msg_name_namespace (lit ''acme-tool''), msg_name_slash (lit ''acme-tool''),
      msg_recommended (lit ''license''), msg_recommended (lit ''homepage''), msg_recommended (lit ''repository'')] =
     [msg_name_namespace (lit ''acme-tool''), msg_name_slash (lit ''acme-tool'')]"
proof -
  have v: "validate_server_json latin1_printable (JObj [(lit ''name'', JStr (lit ''acme-tool'')), (lit ''version'', JStr (lit ''1'')),
      (lit ''description'', JStr (lit ''A tool'')), (lit ''packages'', JArr [JObj [(lit ''type'', JStr (lit ''npm''))]])]) =
     Inr ([], [msg_name_namespace (lit ''acme-tool''), msg_name_slash (lit ''acme-tool''),
               msg_recommended (lit ''license''), msg_recommended (lit ''homepage''),
               msg_recommended (lit ''repository'')])"
    by code_simp
  from name_format_warnings [OF v] v show ?thesis by simp
qed

section \<open>The messages about one package and about one remote\<close>

lemma package_part:
  assumes v: "validate_server_json pr (JObj d) = Inr (errs, warns)"
  obtains hp pe pw where
    "has_entries (JObj d) (lit ''packages'') = Inr hp"
    "(if hp then check_packages pr (JObj d) else Inr ([], [])) = Inr (pe, pw)"
    "filter (about_package i) errs = filter (about_package i) pe"
    "filter (about_package i) warns = filter (about_package i) pw"
proof -
  from v obtain nw hp hr pe pw re rw qe qw where
    n: "check_name pr (JObj d) = Inr ([], nw)"
    and h: "has_entries (JObj d) (lit ''packages'') = Inr hp"
    and b: "(if hp then check_packages pr (JObj d) else Inr ([], [])) = Inr (pe, pw)"
      "(if hr then check_remotes pr (JObj d) else Inr ([], [])) = Inr (re, rw)"
      "check_repository (JObj d) = Inr (qe, qw)"
    and e: "errs = concat (map (required_msgs d) required_fields) @ fst (check_deployment hp hr) @
            pe @ re @ qe"
    and w: "warns = nw @ pw @ rw @ concat (map (recommended_msgs d) recommended_fields) @ qw"
    by (rule validate_dict_blocks)
  have "filter (about_package i) errs = filter (about_package i) pe \<and>
        filter (about_package i) warns = filter (about_package i) pw"
  proof -
    have "\<forall>m\<in>set (concat (map (required_msgs d) required_fields)). take 3 m \<noteq> (lit ''Pac'')"
      using required_kind [of _ d required_fields] by fastforce
    then have "filter (about_package i) (concat (map (required_msgs d) required_fields)) = []"
      by (auto simp: filter_empty_conv dest!: about_package_kind)
    moreover have "filter (about_package i) (fst (check_deployment hp hr)) = []"
      using deployment_kind [of _ hp hr]
      by (auto simp: filter_empty_conv dest!: about_package_kind)
    moreover have "filter (about_package i) re = []" "filter (about_package i) rw = []"
      using remotes_kind [OF b(2)]
      by (auto simp: filter_empty_conv dest!: about_package_kind)
    moreover have "filter (about_package i) qe = []" "filter (about_package i) qw = []"
      using repository_kind [OF b(3)]
      by (auto simp: filter_empty_conv dest!: about_package_kind)
    moreover have "\<forall>m\<in>set nw. take 3 m = lit ''Nam''"
      using name_kind [OF n] name_warning_kind by blast
    then have "filter (about_package i) nw = []"
      by (auto simp: filter_empty_conv dest!: about_package_kind)
    moreover have
      "\<forall>m\<in>set (concat (map (recommended_msgs d) recommended_fields)). take 3 m = lit ''Rec''"
      using recommended_kind [of _ d recommended_fields] by fastforce
    then have "filter (about_package i) (concat (map (recommended_msgs d) recommended_fields)) = []"
      by (auto simp: filter_empty_conv dest!: about_package_kind)
    ultimately show ?thesis using e w by simp
  qed
  with h b(1) show thesis by (intro that [of hp pe pw]) simp_all
qed

lemma remote_part:
  assumes v: "validate_server_json pr (JObj d) = Inr (errs, warns)"
  obtains hr re rw where
    "has_entries (JObj d) (lit ''remotes'') = Inr hr"
    "(if hr then check_remotes pr (JObj d) else Inr ([], [])) = Inr (re, rw)"
    "filter (about_remote i) errs = filter (about_remote i) re"
    "filter (about_remote i) warns = filter (about_remote i) rw"
proof -
  from v obtain nw hp hr pe pw re rw qe qw where
    n: "check_name pr (JObj d) = Inr ([], nw)"
    and h: "has_entries (JObj d) (lit ''remotes'') = Inr hr"
    and b: "(if hp then check_packages pr (JObj d) else Inr ([], [])) = Inr (pe, pw)"
      "(if hr then check_remotes pr (JObj d) else Inr ([], [])) = Inr (re, rw)"
      "check_repository (JObj d) = Inr (qe, qw)"
    and e: "errs = concat (map (required_msgs d) required_fields) @ fst (check_deployment hp hr) @
            pe @ re @ qe"
    and w: "warns = nw @ pw @ rw @ concat (map (recommended_msgs d) recommended_fields) @ qw"
    by (rule validate_dict_blocks)
  have "filter (about_remote i) errs = filter (about_remote i) re \<and>
        filter (about_remote i) warns = filter (about_remote i) rw"
  proof -
    have "\<forall>m\<in>set (concat (map (required_msgs d) required_fields)). take 3 m \<noteq> (lit ''Rem'')"
      using required_kind [of _ d required_fields] by fastforce
    then have "filter (about_remote i) (concat (map (required_msgs d) required_fields)) = []"
      by (auto simp: filter_empty_conv dest!: about_remote_kind)
    moreover have "filter (about_remote i) (fst (check_deployment hp hr)) = []"
      using deployment_kind [of _ hp hr]
      by (auto simp: filter_empty_conv dest!: about_remote_kind)
    moreover have "filter (about_remote i) pe = []" "filter (about_remote i) pw = []"
      using packages_kind [OF b(1)]
      by (auto simp: filter_empty_conv dest!: about_remote_kind)
    moreover have "filter (about_remote i) qe = []" "filter (about_remote i) qw = []"
      using repository_kind [OF b(3)]
      by (auto simp: filter_empty_conv dest!: about_remote_kind)
    moreover have "\<forall>m\<in>set nw. take 3 m = lit ''Nam''"
      using name_kind [OF n] name_warning_kind by blast
    then have "filter (about_remote i) nw = []"
      by (auto simp: filter_empty_conv dest!: about_remote_kind)
    moreover have
      "\<forall>m\<in>set (concat (map (recommended_msgs d) recommended_fields)). take 3 m = lit ''Rec''"
      using recommended_kind [of _ d recommended_fields] by fastforce
    then have "filter (about_remote i) (concat (map (recommended_msgs d) recommended_fields)) = []"
      by (auto simp: filter_empty_conv dest!: about_remote_kind)
    ultimately show ?thesis using e w by simp
  qed
  with h b(2) show thesis by (intro that [of hr re rw]) simp_all
qed

lemma package_messages_of:
  assumes v: "validate_server_json pr (JObj d) = Inr (errs, warns)"
    and ps: "map_of d (lit ''packages'') = Some (JArr ps)" "i < length ps"
    and c: "check_package pr i (ps ! i) = Inr (e, w)"
  shows "filter (about_package i) errs = e \<and> filter (about_package i) warns = w"
proof -
  from v obtain hp pe pw where
    h: "has_entries (JObj d) (lit ''packages'') = Inr hp"
    and b: "(if hp then check_packages pr (JObj d) else Inr ([], [])) = Inr (pe, pw)"
    and f: "filter (about_package i) errs = filter (about_package i) pe"
      "filter (about_package i) warns = filter (about_package i) pw"
    by (rule package_part)
  from ps have "ps \<noteq> []" by auto
  with has_entries_dict [OF h] ps(1) have hp by (simp add: dict_get_def)
  with b ps(1) have
    "for_each (\<lambda>(idx, package). check_package pr idx package) (enumerate 0 ps) = Inr (pe, pw)"
    by (simp add: check_packages_def)
  then have "filter (about_package i) pe = e \<and> filter (about_package i) pw = w"
    using check_package_about about_package_unique ps(2) c by (rule entry_messages)
  with f show ?thesis by simp
qed

lemma remote_messages_of:
  assumes v: "validate_server_json pr (JObj d) = Inr (errs, warns)"
    and rs: "map_of d (lit ''remotes'') = Some (JArr rs)" "i < length rs"
    and c: "check_remote pr i (rs ! i) = Inr (e, w)"
  shows "filter (about_remote i) errs = e \<and> filter (about_remote i) warns = w"
proof -
  from v obtain hr re rw where
    h: "has_entries (JObj d) (lit ''remotes'') = Inr hr"
    and b: "(if hr then check_remotes pr (JObj d) else Inr ([], [])) = Inr (re, rw)"
    and f: "filter (about_remote i) errs = filter (about_remote i) re"
      "filter (about_remote i) warns = filter (about_remote i) rw"
    by (rule remote_part)
  from rs have "rs \<noteq> []" by auto
  with has_entries_dict [OF h] rs(1) have hr by (simp add: dict_get_def)
  with b rs(1) have
    "for_each (\<lambda>(idx, remote). check_remote pr idx remote) (enumerate 0 rs) = Inr (re, rw)"
    by (simp add: check_remotes_def)
  then have "filter (about_remote i) re = e \<and> filter (about_remote i) rw = w"
    using check_remote_about about_remote_unique rs(2) c by (rule entry_messages)
  with f show ?thesis by simp
qed

lemma mcpb_msg_not_platform: "\<not> about_platforms_of i (msg_mcpb_missing i f k)"
  by (simp add: about_platforms_of_def msg_mcpb_missing_def)

lemma filter_platforms_via_package:
  "filter (about_platforms_of i) xs = filter (about_platforms_of i) (filter (about_package i) xs)"
  by (induction xs) (auto dest: about_platforms_package)

text \<open>
  C4. Whenever the validator returns on a mapping whose \<^verbatim>\<open>packages\<close> is a sequence, for a
  package at index \<open>i\<close> that is a mapping with \<^verbatim>\<open>type\<close> equal to \<^verbatim>\<open>mcpb\<close>, a \<^verbatim>\<open>uri\<close> key, no
  \<^verbatim>\<open>sha256\<close> key and \<^verbatim>\<open>platforms\<close> equal to the empty sequence: the errors about package
  \<open>i\<close> are exactly two, the missing \<^verbatim>\<open>sha256\<close> error and the missing \<^verbatim>\<open>platforms\<close> error,
  and no error is about a platform of package \<open>i\<close>.
\<close>

theorem mcpb_package_two_errors:
  assumes "validate_server_json pr (JObj d) = Inr (errs, warns)"
    and "map_of d (lit ''packages'') = Some (JArr ps)" "i < length ps" "ps ! i = JObj p"
    and "map_of p (lit ''type'') = Some (JStr (lit ''mcpb''))" "map_of p (lit ''uri'') = Some u"
    and "map_of p (lit ''sha256'') = None" "map_of p (lit ''platforms'') = Some (JArr [])"
  shows "filter (about_package i) errs =
           [msg_mcpb_missing i (lit ''sha256'') (lit ''field''), msg_mcpb_missing i (lit ''platforms'') (lit ''array'')] \<and>
         length (filter (about_package i) errs) = 2 \<and>
         filter (about_platforms_of i) errs = []"
proof -
  have "check_package pr i (ps ! i) =
    Inr ([msg_mcpb_missing i (lit ''sha256'') (lit ''field''), msg_mcpb_missing i (lit ''platforms'') (lit ''array'')], [])"
    using assms(4-8)
    by (simp add: check_package_def check_mcpb_def check_type_def dict_get_def
          known_package_types_def)
  from package_messages_of [OF assms(1-3) this]
  have e: "filter (about_package i) errs =
    [msg_mcpb_missing i (lit ''sha256'') (lit ''field''), msg_mcpb_missing i (lit ''platforms'') (lit ''array'')]" ..
  have "filter (about_platforms_of i) errs = []"
    by (subst filter_platforms_via_package) (simp add: e mcpb_msg_not_platform)
  with e show ?thesis by simp
qed

theorem mcpb_package_two_errors_witness:
  "validate_server_json latin1_printable (JObj [(lit ''name'', JStr (lit ''com.acme/tool'')), (lit ''version'', JStr (lit ''1'')),
      (lit ''description'', JStr (lit ''A tool'')),
      (lit ''packages'', JArr [JObj [(lit ''type'', JStr (lit ''npm''))],
         JObj [(lit ''type'', JStr (lit ''mcpb'')), (lit ''uri'', JStr (lit ''u'')), (lit ''platforms'', JArr [])]])]) =
     Inr ([msg_mcpb_missing 1 (lit ''sha256'') (lit ''field''), msg_mcpb_missing 1 (lit ''platforms'') (lit ''array'')],
          [msg_recommended (lit ''license''), msg_recommended (lit ''homepage''),
           msg_recommended (lit ''repository'')]) \<and>
   filter (about_package 1)
     [msg_mcpb_missing 1 (lit ''sha256'') (lit ''field''), msg_mcpb_missing 1 (lit ''platforms'') (lit ''array'')] =
     [msg_mcpb_missing 1 (lit ''sha256'') (lit ''field''), msg_mcpb_missing 1 (lit ''platforms'') (lit ''array'')] \<and>
   filter (about_platforms_of 1)
     [msg_mcpb_missing 1 (lit ''sha256'') (lit ''field''), msg_mcpb_missing 1 (lit ''platforms'') (lit ''array'')] = []"
proof -
  have v: "validate_server_json latin1_printable (JObj [(lit ''name'', JStr (lit ''com.acme/tool'')), (lit ''version'', JStr (lit ''1'')),
      (lit ''description'', JStr (lit ''A tool'')),
      (lit ''packages'', JArr [JObj [(lit ''type'', JStr (lit ''npm''))],
         JObj [(lit ''type'', JStr (lit ''mcpb'')), (lit ''uri'', JStr (lit ''u'')), (lit ''platforms'', JArr [])]])]) =
     Inr ([msg_mcpb_missing 1 (lit ''sha256'') (lit ''field''), msg_mcpb_missing 1 (lit ''platforms'') (lit ''array'')],
          [msg_recommended (lit ''license''), msg_recommended (lit ''homepage''),
           msg_recommended (lit ''repository'')])"
    by code_simp
  have "filter (about_package 1)
     [msg_mcpb_missing 1 (lit ''sha256'') (lit ''field''), msg_mcpb_missing 1 (lit ''platforms'') (lit ''array'')] =
     [msg_mcpb_missing 1 (lit ''sha256'') (lit ''field''), msg_mcpb_missing 1 (lit ''platforms'') (lit ''array'')] \<and>
   length (filter (about_package 1)
     [msg_mcpb_missing 1 (lit ''sha256'') (lit ''field''), msg_mcpb_missing 1 (lit ''platforms'') (lit ''array'')]) = 2 \<and>
   filter (about_platforms_of 1)
     [msg_mcpb_missing 1 (lit ''sha256'') (lit ''field''), msg_mcpb_missing 1 (lit ''platforms'') (lit ''array'')] = []"
    using mcpb_package_two_errors [OF v, where i = 1 and u = "JStr (lit ''u'')"
        and ps = "[JObj [(lit ''type'', JStr (lit ''npm''))],
                   JObj [(lit ''type'', JStr (lit ''mcpb'')), (lit ''uri'', JStr (lit ''u'')), (lit ''platforms'', JArr [])]]"
        and p = "[(lit ''type'', JStr (lit ''mcpb'')), (lit ''uri'', JStr (lit ''u'')), (lit ''platforms'', JArr [])]"]
    by simp
  with v show ?thesis by simp
qed

text \<open>
  C6. Whenever the validator returns on a mapping whose \<^verbatim>\<open>remotes\<close> is a sequence, for a
  remote at index \<open>i\<close> that is a mapping with an \<^verbatim>\<open>endpoint\<close> key and \<^verbatim>\<open>transport\<close> equal to
  \<^verbatim>\<open>graphql\<close>: exactly one warning is about remote \<open>i\<close>, the unknown-transport warning
  naming \<^verbatim>\<open>graphql\<close>, and no error is about remote \<open>i\<close>.
\<close>

theorem graphql_remote_one_warning:
  assumes "validate_server_json pr (JObj d) = Inr (errs, warns)"
    and "map_of d (lit ''remotes'') = Some (JArr rs)" "i < length rs" "rs ! i = JObj r"
    and "map_of r (lit ''endpoint'') = Some ep" "map_of r (lit ''transport'') = Some (JStr (lit ''graphql''))"
  shows "filter (about_remote i) warns =
           [lit ''Remote '' @ lit (str_nat i) @ lit '': Unknown transport '' @ apos @ lit ''graphql'' @ apos] \<and>
         length (filter (about_remote i) warns) = 1 \<and>
         filter (about_remote i) errs = []"
proof -
  have "check_remote pr i (rs ! i) = Inr ([], [msg_unknown_transport pr i (JStr (lit ''graphql''))])"
    using assms(4-6) by (simp add: check_remote_def known_transports_def)
  from remote_messages_of [OF assms(1-3) this] show ?thesis
    by (simp add: msg_unknown_transport_def remote_prefix_def)
qed

theorem graphql_remote_one_warning_witness:
  "validate_server_json latin1_printable (JObj [(lit ''name'', JStr (lit ''com.acme/tool'')), (lit ''version'', JStr (lit ''1'')),
      (lit ''description'', JStr (lit ''A tool'')),
      (lit ''remotes'', JArr [JObj [(lit ''endpoint'', JStr (lit ''e'')), (lit ''transport'', JStr (lit ''graphql''))]])]) =
     Inr ([], [msg_unknown_transport latin1_printable 0 (JStr (lit ''graphql'')),
               msg_recommended (lit ''license''), msg_recommended (lit ''homepage''),
               msg_recommended (lit ''repository'')]) \<and>
   filter (about_remote 0) [msg_unknown_transport latin1_printable 0 (JStr (lit ''graphql'')),
               msg_recommended (lit ''license''), msg_recommended (lit ''homepage''),
               msg_recommended (lit ''repository'')] =
     [lit ''Remote '' @ lit (str_nat 0) @ lit '': Unknown transport '' @ apos @ lit ''graphql'' @ apos] \<and>
   filter (about_remote 0) [] = []"
proof -
  have v: "validate_server_json latin1_printable (JObj [(lit ''name'', JStr (lit ''com.acme/tool'')), (lit ''version'', JStr (lit ''1'')),
      (lit ''description'', JStr (lit ''A tool'')),
      (lit ''remotes'', JArr [JObj [(lit ''endpoint'', JStr (lit ''e'')), (lit ''transport'', JStr (lit ''graphql''))]])]) =
     Inr ([], [msg_unknown_transport latin1_printable 0 (JStr (lit ''graphql'')),
               msg_recommended (lit ''license''), msg_recommended (lit ''homepage''),
               msg_recommended (lit ''repository'')])"
    by code_simp
  have "filter (about_remote 0) [msg_unknown_transport latin1_printable 0 (JStr (lit ''graphql'')),
               msg_recommended (lit ''license''), msg_recommended (lit ''homepage''),
               msg_recommended (lit ''repository'')] =
           [lit ''Remote '' @ lit (str_nat 0) @ lit '': Unknown transport '' @ apos @ lit ''graphql'' @ apos] \<and>
         length (filter (about_remote 0) [msg_unknown_transport latin1_printable 0 (JStr (lit ''graphql'')),
               msg_recommended (lit ''license''), msg_recommended (lit ''homepage''),
               msg_recommended (lit ''repository'')]) = 1 \<and>
         filter (about_remote 0) [] = []"
    using graphql_remote_one_warning [OF v, where i = 0 and ep = "JStr (lit ''e'')"
        and rs = "[JObj [(lit ''endpoint'', JStr (lit ''e'')), (lit ''transport'', JStr (lit ''graphql''))]]"
        and r = "[(lit ''endpoint'', JStr (lit ''e'')), (lit ''transport'', JStr (lit ''graphql''))]"]
    by simp
  with v show ?thesis by simp
qed

section \<open>Falsy values: a transport, a package type, a whole list\<close>

lemma falsy_not_known:
  assumes "\<not> truthy v"
  shows "v \<notin> set known_transports" "v \<notin> set known_package_types" "v \<noteq> JStr (lit ''mcpb'')"
  using assms by (auto simp: known_transports_def known_package_types_def)

lemma check_remote_falsy_transport:
  assumes "map_of r (lit ''transport'') = Some v" "\<not> truthy v"
  shows "check_remote pr i (JObj r) =
    Inr ((if map_of r (lit ''endpoint'') = None then [remote_prefix i @ msg_missing_quoted (lit ''endpoint'')] else []),
         [msg_unknown_transport pr i v])"
  using assms falsy_not_known(1) [OF assms(2)] by (simp add: check_remote_def)

lemma check_package_falsy_type:
  assumes "map_of p (lit ''type'') = Some v" "\<not> truthy v"
  shows "check_package pr i (JObj p) = Inr ([pkg_prefix i @ msg_missing_quoted (lit ''type'')], [])"
  using assms falsy_not_known(3) [OF assms(2)]
  by (simp add: check_package_def check_type_def dict_get_def)

lemma missing_quoted_eq [simp]: "msg_missing_quoted f = msg_missing_quoted g \<longleftrightarrow> f = g"
  by (simp add: msg_missing_quoted_def)

text \<open>
  C10. Whenever the validator returns on a mapping: a remote mapping at index \<open>i\<close> of the
  \<^verbatim>\<open>remotes\<close> sequence whose \<^verbatim>\<open>transport\<close> key is present with a falsy value gets the
  unknown-transport warning (with the text of that value) and not the missing-transport
  error; a package mapping at index \<open>j\<close> of the \<^verbatim>\<open>packages\<close> sequence whose \<^verbatim>\<open>type\<close> key is
  present with a falsy value gets the missing-type error and no warning at all, so no
  unknown-type warning.
\<close>

theorem falsy_transport_and_type:
  assumes "validate_server_json pr (JObj d) = Inr (errs, warns)"
  shows "(map_of d (lit ''remotes'') = Some (JArr rs) \<and> i < length rs \<and> rs ! i = JObj r \<and>
          map_of r (lit ''transport'') = Some v \<and> \<not> truthy v \<longrightarrow>
            msg_unknown_transport pr i v \<in> set warns \<and>
            filter (about_remote i) warns = [msg_unknown_transport pr i v] \<and>
            remote_prefix i @ msg_missing_quoted (lit ''transport'') \<notin> set errs) \<and>
         (map_of d (lit ''packages'') = Some (JArr ps) \<and> j < length ps \<and> ps ! j = JObj p \<and>
          map_of p (lit ''type'') = Some t \<and> \<not> truthy t \<longrightarrow>
            pkg_prefix j @ msg_missing_quoted (lit ''type'') \<in> set errs \<and>
            msg_unknown_type pr j t \<notin> set warns \<and>
            filter (about_package j) warns = [])"
proof (intro conjI impI)
  assume a: "map_of d (lit ''remotes'') = Some (JArr rs) \<and> i < length rs \<and> rs ! i = JObj r \<and>
          map_of r (lit ''transport'') = Some v \<and> \<not> truthy v"
  then have "check_remote pr i (rs ! i) =
    Inr ((if map_of r (lit ''endpoint'') = None then [remote_prefix i @ msg_missing_quoted (lit ''endpoint'')] else []),
         [msg_unknown_transport pr i v])"
    by (simp add: check_remote_falsy_transport)
  from remote_messages_of [OF assms _ _ this] a have
    f: "filter (about_remote i) errs =
          (if map_of r (lit ''endpoint'') = None then [remote_prefix i @ msg_missing_quoted (lit ''endpoint'')] else [])"
       "filter (about_remote i) warns = [msg_unknown_transport pr i v]"
    by simp_all
  from f(2) show "filter (about_remote i) warns = [msg_unknown_transport pr i v]" .
  have "msg_unknown_transport pr i v \<in> set (filter (about_remote i) warns)"
    unfolding f(2) by simp
  then show "msg_unknown_transport pr i v \<in> set warns" by simp
  show "remote_prefix i @ msg_missing_quoted (lit ''transport'') \<notin> set errs"
  proof
    assume "remote_prefix i @ msg_missing_quoted (lit ''transport'') \<in> set errs"
    then have "remote_prefix i @ msg_missing_quoted (lit ''transport'') \<in> set (filter (about_remote i) errs)"
      by (simp add: remote_msg_about)
    then show False unfolding f(1) by (simp split: if_splits)
  qed
next
  assume a: "map_of d (lit ''packages'') = Some (JArr ps) \<and> j < length ps \<and> ps ! j = JObj p \<and>
          map_of p (lit ''type'') = Some t \<and> \<not> truthy t"
  then have "check_package pr j (ps ! j) = Inr ([pkg_prefix j @ msg_missing_quoted (lit ''type'')], [])"
    by (simp add: check_package_falsy_type)
  from package_messages_of [OF assms _ _ this] a have
    f: "filter (about_package j) errs = [pkg_prefix j @ msg_missing_quoted (lit ''type'')]"
       "filter (about_package j) warns = []"
    by simp_all
  from f(2) show "filter (about_package j) warns = []" .
  have "pkg_prefix j @ msg_missing_quoted (lit ''type'') \<in> set (filter (about_package j) errs)"
    unfolding f(1) by simp
  then show "pkg_prefix j @ msg_missing_quoted (lit ''type'') \<in> set errs" by simp
  show "msg_unknown_type pr j t \<notin> set warns"
  proof
    assume "msg_unknown_type pr j t \<in> set warns"
    then have "msg_unknown_type pr j t \<in> set (filter (about_package j) warns)"
      by (simp add: pkg_msg_about)
    then show False unfolding f(2) by simp
  qed
qed

theorem falsy_transport_and_type_witness:
  "validate_server_json latin1_printable (JObj [(lit ''name'', JStr (lit ''com.acme/tool'')), (lit ''version'', JStr (lit ''1'')),
      (lit ''description'', JStr (lit ''A tool'')),
      (lit ''packages'', JArr [JObj [(lit ''type'', JStr [])]]),
      (lit ''remotes'', JArr [JObj [(lit ''endpoint'', JStr (lit ''e'')), (lit ''transport'', JNull)]])]) =
     Inr ([pkg_prefix 0 @ msg_missing_quoted (lit ''type'')],
          [msg_unknown_transport latin1_printable 0 JNull,
           msg_recommended (lit ''license''), msg_recommended (lit ''homepage''),
           msg_recommended (lit ''repository'')]) \<and>
   msg_unknown_transport latin1_printable 0 JNull = lit ''Remote 0: Unknown transport '' @ apos @ lit ''None'' @ apos \<and>
   filter (about_remote 0) [msg_unknown_transport latin1_printable 0 JNull,
           msg_recommended (lit ''license''), msg_recommended (lit ''homepage''),
           msg_recommended (lit ''repository'')] = [msg_unknown_transport latin1_printable 0 JNull] \<and>
   filter (about_package 0) [msg_unknown_transport latin1_printable 0 JNull,
           msg_recommended (lit ''license''), msg_recommended (lit ''homepage''),
           msg_recommended (lit ''repository'')] = []"
proof -
  have v: "validate_server_json latin1_printable (JObj [(lit ''name'', JStr (lit ''com.acme/tool'')), (lit ''version'', JStr (lit ''1'')),
      (lit ''description'', JStr (lit ''A tool'')),
      (lit ''packages'', JArr [JObj [(lit ''type'', JStr [])]]),
      (lit ''remotes'', JArr [JObj [(lit ''endpoint'', JStr (lit ''e'')), (lit ''transport'', JNull)]])]) =
     Inr ([pkg_prefix 0 @ msg_missing_quoted (lit ''type'')],
          [msg_unknown_transport latin1_printable 0 JNull,
           msg_recommended (lit ''license''), msg_recommended (lit ''homepage''),
           msg_recommended (lit ''repository'')])"
    by code_simp
  have t: "msg_unknown_transport latin1_printable 0 JNull = lit ''Remote 0: Unknown transport '' @ apos @ lit ''None'' @ apos"
    by code_simp
  from falsy_transport_and_type [OF v, where i = 0 and j = 0 and v = JNull and t = "JStr []"
      and rs = "[JObj [(lit ''endpoint'', JStr (lit ''e'')), (lit ''transport'', JNull)]]"
      and r = "[(lit ''endpoint'', JStr (lit ''e'')), (lit ''transport'', JNull)]"
      and ps = "[JObj [(lit ''type'', JStr [])]]" and p = "[(lit ''type'', JStr [])]"]
  show ?thesis using v t by simp
qed

lemma map_of_drop_key:
  "map_of (filter (\<lambda>kv. fst kv \<noteq> key) d) k = (if k = key then None else map_of d k)"
  by (induction d) auto

lemma validate_drop_falsy_packages:
  assumes "map_of d (lit ''packages'') = Some v" "\<not> truthy v"
  shows "validate_server_json pr (JObj (filter (\<lambda>kv. fst kv \<noteq> (lit ''packages'')) d)) =
         validate_server_json pr (JObj d)"
proof -
  let ?d = "filter (\<lambda>kv. fst kv \<noteq> (lit ''packages'')) d"
  note m = map_of_drop_key [of "lit ''packages''" d, simplified]
  have 1: "for_each (required_field (JObj ?d)) required_fields =
           for_each (required_field (JObj d)) required_fields"
    by (simp add: required_fields_def required_field_def m)
  have 2: "check_name pr (JObj ?d) = check_name pr (JObj d)"
    by (simp add: check_name_def m)
  have 3: "has_entries (JObj ?d) (lit ''packages'') = Inr False"
    "has_entries (JObj d) (lit ''packages'') = Inr False"
    using assms by (simp_all add: has_entries_def dict_get_def m)
  have 4: "has_entries (JObj ?d) (lit ''remotes'') = has_entries (JObj d) (lit ''remotes'')"
    by (simp add: has_entries_def dict_get_def m)
  have 5: "check_remotes pr (JObj ?d) = check_remotes pr (JObj d)"
    by (simp add: check_remotes_def m)
  have 6: "for_each (recommended_field (JObj ?d)) recommended_fields =
           for_each (recommended_field (JObj d)) recommended_fields"
    by (simp add: recommended_fields_def recommended_field_def m)
  have 7: "check_repository (JObj ?d) = check_repository (JObj d)"
    by (simp add: check_repository_def m)
  show ?thesis
    unfolding validate_server_json_def 1 2 3 4 5 6 7 and_then_Inr if_False ..
qed

lemma validate_drop_falsy_remotes:
  assumes "map_of d (lit ''remotes'') = Some v" "\<not> truthy v"
  shows "validate_server_json pr (JObj (filter (\<lambda>kv. fst kv \<noteq> (lit ''remotes'')) d)) =
         validate_server_json pr (JObj d)"
proof -
  let ?d = "filter (\<lambda>kv. fst kv \<noteq> (lit ''remotes'')) d"
  note m = map_of_drop_key [of "lit ''remotes''" d, simplified]
  have 1: "for_each (required_field (JObj ?d)) required_fields =
           for_each (required_field (JObj d)) required_fields"
    by (simp add: required_fields_def required_field_def m)
  have 2: "check_name pr (JObj ?d) = check_name pr (JObj d)"
    by (simp add: check_name_def m)
  have 3: "has_entries (JObj ?d) (lit ''remotes'') = Inr False"
    "has_entries (JObj d) (lit ''remotes'') = Inr False"
    using assms by (simp_all add: has_entries_def dict_get_def m)
  have 4: "has_entries (JObj ?d) (lit ''packages'') = has_entries (JObj d) (lit ''packages'')"
    by (simp add: has_entries_def dict_get_def m)
  have 5: "check_packages pr (JObj ?d) = check_packages pr (JObj d)"
    by (simp add: check_packages_def m)
  have 6: "for_each (recommended_field (JObj ?d)) recommended_fields =
           for_each (recommended_field (JObj d)) recommended_fields"
    by (simp add: recommended_fields_def recommended_field_def m)
  have 7: "check_repository (JObj ?d) = check_repository (JObj d)"
    by (simp add: check_repository_def m)
  show ?thesis
    unfolding validate_server_json_def 1 2 3 4 5 6 7 and_then_Inr if_False ..
qed

lemma no_package_messages:
  assumes "validate_server_json pr (JObj d) = Inr (errs, warns)"
    and "has_entries (JObj d) (lit ''packages'') = Inr False"
  shows "filter (about_package i) errs = [] \<and> filter (about_package i) warns = []"
proof -
  from assms(1) obtain hp pe pw where
    "has_entries (JObj d) (lit ''packages'') = Inr hp"
    "(if hp then check_packages pr (JObj d) else Inr ([], [])) = Inr (pe, pw)"
    "filter (about_package i) errs = filter (about_package i) pe"
    "filter (about_package i) warns = filter (about_package i) pw"
    by (rule package_part)
  with assms(2) show ?thesis by auto
qed

lemma no_remote_messages:
  assumes "validate_server_json pr (JObj d) = Inr (errs, warns)"
    and "has_entries (JObj d) (lit ''remotes'') = Inr False"
  shows "filter (about_remote i) errs = [] \<and> filter (about_remote i) warns = []"
proof -
  from assms(1) obtain hr re rw where
    "has_entries (JObj d) (lit ''remotes'') = Inr hr"
    "(if hr then check_remotes pr (JObj d) else Inr ([], [])) = Inr (re, rw)"
    "filter (about_remote i) errs = filter (about_remote i) re"
    "filter (about_remote i) warns = filter (about_remote i) rw"
    by (rule remote_part)
  with assms(2) show ?thesis by auto
qed

text \<open>
  C9. On a mapping whose \<^verbatim>\<open>packages\<close> key is present with a falsy value (\<^verbatim>\<open>null\<close>, \<^verbatim>\<open>false\<close>,
  zero, an empty string, list or dict), the validator does exactly what it does on the
  same mapping without the key, result or exception alike: the value counts as no
  packages for the deployment check, its own test raises nothing, and a returned
  validation has no message about any package. The same holds for \<^verbatim>\<open>remotes\<close>.
\<close>

theorem falsy_entries_as_absent:
  "(map_of d (lit ''packages'') = Some v \<and> \<not> truthy v \<longrightarrow>
      validate_server_json pr (JObj d) =
        validate_server_json pr (JObj (filter (\<lambda>kv. fst kv \<noteq> (lit ''packages'')) d)) \<and>
      has_entries (JObj d) (lit ''packages'') = Inr False \<and>
      (\<forall>errs warns i. validate_server_json pr (JObj d) = Inr (errs, warns) \<longrightarrow>
         filter (about_package i) errs = [] \<and> filter (about_package i) warns = [])) \<and>
   (map_of d (lit ''remotes'') = Some v \<and> \<not> truthy v \<longrightarrow>
      validate_server_json pr (JObj d) =
        validate_server_json pr (JObj (filter (\<lambda>kv. fst kv \<noteq> (lit ''remotes'')) d)) \<and>
      has_entries (JObj d) (lit ''remotes'') = Inr False \<and>
      (\<forall>errs warns i. validate_server_json pr (JObj d) = Inr (errs, warns) \<longrightarrow>
         filter (about_remote i) errs = [] \<and> filter (about_remote i) warns = []))"
proof (intro conjI impI allI)
  assume a: "map_of d (lit ''packages'') = Some v \<and> \<not> truthy v"
  then show "validate_server_json pr (JObj d) =
        validate_server_json pr (JObj (filter (\<lambda>kv. fst kv \<noteq> (lit ''packages'')) d))"
    using validate_drop_falsy_packages [of d v pr] by simp
  from a show h: "has_entries (JObj d) (lit ''packages'') = Inr False"
    by (simp add: has_entries_def dict_get_def)
  fix errs warns i
  assume "validate_server_json pr (JObj d) = Inr (errs, warns)"
  from no_package_messages [OF this h]
  show "filter (about_package i) errs = []" "filter (about_package i) warns = []" by simp_all
next
  assume a: "map_of d (lit ''remotes'') = Some v \<and> \<not> truthy v"
  then show "validate_server_json pr (JObj d) =
        validate_server_json pr (JObj (filter (\<lambda>kv. fst kv \<noteq> (lit ''remotes'')) d))"
    using validate_drop_falsy_remotes [of d v pr] by simp
  from a show h: "has_entries (JObj d) (lit ''remotes'') = Inr False"
    by (simp add: has_entries_def dict_get_def)
  fix errs warns i
  assume "validate_server_json pr (JObj d) = Inr (errs, warns)"
  from no_remote_messages [OF this h]
  show "filter (about_remote i) errs = []" "filter (about_remote i) warns = []" by simp_all
qed

theorem falsy_entries_as_absent_witness:
  "validate_server_json latin1_printable (JObj [(lit ''name'', JStr (lit ''com.acme/tool'')), (lit ''packages'', JNull),
      (lit ''remotes'', JInt 0)]) =
     Inr ([msg_missing_required (lit ''version''), msg_missing_required (lit ''description''),
           msg_no_deployment],
          [msg_recommended (lit ''license''), msg_recommended (lit ''homepage''),
           msg_recommended (lit ''repository'')]) \<and>
   validate_server_json latin1_printable (JObj [(lit ''name'', JStr (lit ''com.acme/tool'')), (lit ''remotes'', JInt 0)]) =
     Inr ([msg_missing_required (lit ''version''), msg_missing_required (lit ''description''),
           msg_no_deployment],
          [msg_recommended (lit ''license''), msg_recommended (lit ''homepage''),
           msg_recommended (lit ''repository'')]) \<and>
   validate_server_json latin1_printable (JObj [(lit ''name'', JStr (lit ''com.acme/tool'')), (lit ''packages'', JNull)]) =
     Inr ([msg_missing_required (lit ''version''), msg_missing_required (lit ''description''),
           msg_no_deployment],
          [msg_recommended (lit ''license''), msg_recommended (lit ''homepage''),
           msg_recommended (lit ''repository'')])"
proof -
  have v: "validate_server_json latin1_printable (JObj [(lit ''name'', JStr (lit ''com.acme/tool'')), (lit ''packages'', JNull),
      (lit ''remotes'', JInt 0)]) =
     Inr ([msg_missing_required (lit ''version''), msg_missing_required (lit ''description''),
           msg_no_deployment],
          [msg_recommended (lit ''license''), msg_recommended (lit ''homepage''),
           msg_recommended (lit ''repository'')])"
    by code_simp
  from falsy_entries_as_absent [where pr = latin1_printable and v = JNull
      and d = "[(lit ''name'', JStr (lit ''com.acme/tool'')), (lit ''packages'', JNull),
                (lit ''remotes'', JInt 0)]"]
    falsy_entries_as_absent [where pr = latin1_printable and v = "JInt 0"
      and d = "[(lit ''name'', JStr (lit ''com.acme/tool'')), (lit ''packages'', JNull),
                (lit ''remotes'', JInt 0)]"]
  show ?thesis using v by simp
qed

section \<open>When the validator returns\<close>

lemma for_each_returns:
  assumes "\<forall>x\<in>set xs. \<exists>d. body x = Inr d"
  shows "\<exists>r. for_each body xs = Inr r"
  using assms by (induction xs) auto

lemma for_each_enumerate_returns:
  assumes "list_all ok xs" "\<And>i x. ok x \<Longrightarrow> \<exists>d. body i x = Inr d"
  shows "\<exists>r. for_each (\<lambda>(i, x). body i x) (enumerate n xs) = Inr r"
  using assms(1)
proof (induction xs arbitrary: n)
  case Nil
  then show ?case by simp
next
  case (Cons x xs)
  from Cons.prems assms(2) [of x n] obtain d where "body n x = Inr d" by auto
  moreover from Cons.IH [of "Suc n"] Cons.prems obtain r where
    "for_each (\<lambda>(i, x). body i x) (enumerate (Suc n) xs) = Inr r" by auto
  ultimately show ?case by simp
qed

lemma entries_ok_cases:
  assumes "entries_ok ok x"
  obtains "x = None" | v where "x = Some v" "\<not> truthy v"
  | xs where "x = Some (JArr xs)" "xs \<noteq> []" "list_all ok xs"
proof (cases x)
  case None
  then show ?thesis by (rule that(1))
next
  case (Some v)
  show ?thesis
  proof (cases "truthy v")
    case False
    with Some show ?thesis by (rule that(2))
  next
    case True
    with assms Some obtain xs where "v = JArr xs" "xs \<noteq> []" "list_all ok xs"
      by (cases v) (auto simp: entries_ok_def)
    with Some show ?thesis by (intro that(3) [of xs]) simp_all
  qed
qed

lemma check_platform_returns: "is_dict platform \<Longrightarrow> \<exists>d. check_platform idx pidx platform = Inr d"
  by (cases platform) (simp_all add: check_platform_def)

lemma check_mcpb_returns:
  assumes "entries_ok is_dict (map_of p (lit ''platforms''))"
  shows "\<exists>d. check_mcpb idx (JObj p) = Inr d"
  using assms
proof (cases rule: entries_ok_cases)
  case 1
  then show ?thesis by (simp add: check_mcpb_def)
next
  case (2 v)
  then show ?thesis by (simp add: check_mcpb_def)
next
  case (3 xs)
  have "\<exists>r. for_each (\<lambda>(pidx, platform). check_platform idx pidx platform) (enumerate 0 xs) = Inr r"
    using 3(3) by (rule for_each_enumerate_returns) (rule check_platform_returns)
  then obtain r where "for_each (\<lambda>(pidx, platform). check_platform idx pidx platform) (enumerate 0 xs) = Inr r" ..
  with 3 show ?thesis by (simp add: check_mcpb_def)
qed

lemma check_package_returns:
  assumes "package_ok package"
  shows "\<exists>d. check_package pr idx package = Inr d"
proof -
  from assms obtain p where p: "package = JObj p"
    "map_of p (lit ''type'') \<noteq> Some (JStr (lit ''mcpb'')) \<or> entries_ok is_dict (map_of p (lit ''platforms''))"
    by (cases package) auto
  show ?thesis
  proof (cases "dict_get p (lit ''type'') JNull = JStr (lit ''mcpb'')")
    case True
    then have "map_of p (lit ''type'') = Some (JStr (lit ''mcpb''))"
      by (auto simp: dict_get_def split: option.splits)
    with p(2) obtain d where "check_mcpb idx (JObj p) = Inr d"
      using check_mcpb_returns by blast
    with True show ?thesis by (simp add: check_package_def p(1))
  next
    case False
    then show ?thesis by (simp add: check_package_def p(1))
  qed
qed

lemma check_remote_returns:
  assumes "is_dict remote"
  shows "\<exists>d. check_remote pr idx remote = Inr d"
proof -
  from assms obtain r where "remote = JObj r" by (cases remote) auto
  then show ?thesis by (auto simp: check_remote_def)
qed

lemma check_repository_returns: "\<exists>r. check_repository (JObj d) = Inr r"
proof (cases "map_of d (lit ''repository'')")
  case None
  then show ?thesis by (simp add: check_repository_def)
next
  case (Some repo)
  then show ?thesis by (cases repo) (simp_all add: check_repository_def)
qed

lemma check_name_returns:
  assumes "case map_of d (lit ''name'') of None \<Rightarrow> True | Some v \<Rightarrow> is_str v"
  shows "\<exists>r. check_name pr (JObj d) = Inr r"
proof (cases "map_of d (lit ''name'')")
  case None
  then show ?thesis by (simp add: check_name_def)
next
  case (Some v)
  with assms obtain n where "v = JStr n" by (cases v) auto
  with Some show ?thesis by (simp add: check_name_str)
qed

lemma check_name_raises:
  assumes "map_of d (lit ''name'') = Some v" "\<not> is_str v"
  shows "check_name pr (JObj d) = Inl AttributeError"
  using assms by (cases v) (simp_all add: check_name_def)

lemma packages_return:
  assumes "entries_ok package_ok (map_of d (lit ''packages''))"
  shows "\<exists>hp r. has_entries (JObj d) (lit ''packages'') = Inr hp \<and>
           (if hp then check_packages pr (JObj d) else Inr ([], [])) = Inr r"
  using assms
proof (cases rule: entries_ok_cases)
  case 1
  then show ?thesis by (intro exI [of _ False]) (simp add: has_entries_def dict_get_def)
next
  case (2 v)
  then show ?thesis by (intro exI [of _ False]) (simp add: has_entries_def dict_get_def)
next
  case (3 xs)
  have "\<exists>r. for_each (\<lambda>(idx, package). check_package pr idx package) (enumerate 0 xs) = Inr r"
    using 3(3) by (rule for_each_enumerate_returns) (rule check_package_returns)
  then obtain r where "for_each (\<lambda>(idx, package). check_package pr idx package) (enumerate 0 xs) = Inr r" ..
  with 3 show ?thesis
    by (intro exI [of _ True]) (simp add: has_entries_def dict_get_def check_packages_def)
qed

lemma remotes_return:
  assumes "entries_ok is_dict (map_of d (lit ''remotes''))"
  shows "\<exists>hr r. has_entries (JObj d) (lit ''remotes'') = Inr hr \<and>
           (if hr then check_remotes pr (JObj d) else Inr ([], [])) = Inr r"
  using assms
proof (cases rule: entries_ok_cases)
  case 1
  then show ?thesis by (intro exI [of _ False]) (simp add: has_entries_def dict_get_def)
next
  case (2 v)
  then show ?thesis by (intro exI [of _ False]) (simp add: has_entries_def dict_get_def)
next
  case (3 xs)
  have "\<exists>r. for_each (\<lambda>(idx, remote). check_remote pr idx remote) (enumerate 0 xs) = Inr r"
    using 3(3) by (rule for_each_enumerate_returns) (rule check_remote_returns)
  then obtain r where "for_each (\<lambda>(idx, remote). check_remote pr idx remote) (enumerate 0 xs) = Inr r" ..
  with 3 show ?thesis
    by (intro exI [of _ True]) (simp add: has_entries_def dict_get_def check_remotes_def)
qed

lemma validate_typed_returns:
  assumes "schema_typed d"
  shows "\<exists>errs warns. validate_server_json pr (JObj d) = Inr (errs, warns)"
proof -
  from assms have n: "case map_of d (lit ''name'') of None \<Rightarrow> True | Some v \<Rightarrow> is_str v"
    and p: "entries_ok package_ok (map_of d (lit ''packages''))"
    and r: "entries_ok is_dict (map_of d (lit ''remotes''))"
    by (simp_all add: schema_typed_def)
  from check_name_returns [OF n] obtain d2 where 2: "check_name pr (JObj d) = Inr d2" ..
  from packages_return [OF p] obtain hp d4 where
    3: "has_entries (JObj d) (lit ''packages'') = Inr hp"
    and 4: "(if hp then check_packages pr (JObj d) else Inr ([], [])) = Inr d4" by blast
  from remotes_return [OF r] obtain hr d5 where
    5: "has_entries (JObj d) (lit ''remotes'') = Inr hr"
    and 6: "(if hr then check_remotes pr (JObj d) else Inr ([], [])) = Inr d5" by blast
  from check_repository_returns obtain d7 where 7: "check_repository (JObj d) = Inr d7" ..
  have "\<exists>r. validate_server_json pr (JObj d) = Inr r"
    unfolding validate_server_json_def required_block recommended_block 2 3 4 5 6 7 and_then_Inr
    by blast
  then show ?thesis by auto
qed

lemma validate_name_raises:
  assumes "map_of d (lit ''name'') = Some v" "\<not> is_str v"
  shows "validate_server_json pr (JObj d) = Inl AttributeError"
proof -
  from assms have "check_name pr (JObj d) = Inl AttributeError" by (rule check_name_raises)
  then show ?thesis
    unfolding validate_server_json_def required_block and_then_Inr by simp
qed

theorem validate_raises_on_wrong_types:
  "validate_server_json latin1_printable (JObj [(lit ''name'', JInt 5)]) = Inl AttributeError \<and>
   validate_server_json latin1_printable (JObj [(lit ''packages'', JArr [JStr (lit ''npm'')])]) = Inl AttributeError \<and>
   validate_server_json latin1_printable (JObj [(lit ''remotes'', JArr [JInt 1])]) = Inl TypeError \<and>
   validate_server_json latin1_printable (JObj [(lit ''packages'',
      JArr [JObj [(lit ''type'', JStr (lit ''mcpb'')), (lit ''platforms'', JInt 1)]])]) = Inl TypeError"
  by code_simp

text \<open>
  C2, as amended. The validator returns normally on every mapping whose values have the
  types it relies on: a \<^verbatim>\<open>name\<close> that, when present, is a string; \<^verbatim>\<open>packages\<close> and
  \<^verbatim>\<open>remotes\<close> each absent, falsy or a list of mappings; the \<^verbatim>\<open>platforms\<close> of every \<^verbatim>\<open>mcpb\<close>
  package absent, falsy or a list of mappings. Wrong types are not all caught: on a
  mapping whose \<^verbatim>\<open>name\<close> is present and not a string the call raises
  \<^verbatim>\<open>AttributeError\<close>.
\<close>

theorem validate_returns_on_typed:
  "(schema_typed d \<longrightarrow> (\<exists>errs warns. validate_server_json pr (JObj d) = Inr (errs, warns))) \<and>
   (map_of d (lit ''name'') = Some v \<and> \<not> is_str v \<longrightarrow>
      validate_server_json pr (JObj d) = Inl AttributeError)"
  using validate_typed_returns [of d pr] validate_name_raises [of d v pr] by blast

theorem validate_returns_on_typed_witness:
  "schema_typed [(lit ''name'', JStr (lit ''acme-tool'')), (lit ''version'', JInt 3),
      (lit ''packages'', JArr [JObj [(lit ''type'', JStr (lit ''mcpb'')), (lit ''platforms'', JArr [JObj []])]]),
      (lit ''remotes'', JArr [JObj []]), (lit ''repository'', JInt 7)] \<and>
   (\<exists>errs warns. validate_server_json latin1_printable (JObj [(lit ''name'', JStr (lit ''acme-tool'')), (lit ''version'', JInt 3),
      (lit ''packages'', JArr [JObj [(lit ''type'', JStr (lit ''mcpb'')), (lit ''platforms'', JArr [JObj []])]]),
      (lit ''remotes'', JArr [JObj []]), (lit ''repository'', JInt 7)]) = Inr (errs, warns)) \<and>
   validate_server_json latin1_printable (JObj [(lit ''name'', JNull)]) = Inl AttributeError"
proof -
  have t: "schema_typed [(lit ''name'', JStr (lit ''acme-tool'')), (lit ''version'', JInt 3),
      (lit ''packages'', JArr [JObj [(lit ''type'', JStr (lit ''mcpb'')), (lit ''platforms'', JArr [JObj []])]]),
      (lit ''remotes'', JArr [JObj []]), (lit ''repository'', JInt 7)]"
    by (simp add: schema_typed_def entries_ok_def)
  from validate_returns_on_typed [where pr = latin1_printable
      and d = "[(lit ''name'', JStr (lit ''acme-tool'')), (lit ''version'', JInt 3),
        (lit ''packages'', JArr [JObj [(lit ''type'', JStr (lit ''mcpb'')),
                                       (lit ''platforms'', JArr [JObj []])]]),
        (lit ''remotes'', JArr [JObj []]), (lit ''repository'', JInt 7)]"] t
    validate_returns_on_typed [where pr = latin1_printable and d = "[(lit ''name'', JNull)]" and v = JNull]
  show ?thesis by simp
qed

section \<open>Required fields and deployment presence, and when there is an error list\<close>

theorem required_name_null_raises:
  "lit ''name'' \<in> set required_fields \<and>
   map_of [(lit ''name'', JNull)] (lit ''name'') = Some JNull \<and> \<not> truthy JNull \<and>
   validate_server_json latin1_printable (JObj [(lit ''name'', JNull)]) = Inl AttributeError"
proof -
  have "validate_server_json latin1_printable (JObj [(lit ''name'', JNull)]) = Inl AttributeError"
    by code_simp
  then show ?thesis by (simp add: required_fields_def)
qed

text \<open>
  C1, as amended. For every document that is a mapping on which the validator returns,
  and each of the required fields \<^verbatim>\<open>name\<close>, \<^verbatim>\<open>version\<close>, \<^verbatim>\<open>description\<close>: the error list
  has \<^verbatim>\<open>Missing required field: <field>\<close> exactly when the key is absent, it has
  \<^verbatim>\<open>Field '<field>' cannot be empty\<close> exactly when the key is present with a falsy value,
  and it never has both. The validator returns on every mapping whose values have the
  types it relies on; it does not return, and there is no error list, when \<^verbatim>\<open>name\<close> is
  present and not a string: a \<^verbatim>\<open>name\<close> that is \<^verbatim>\<open>null\<close>, \<^verbatim>\<open>false\<close>, zero, \<^verbatim>\<open>[]\<close> or
  \<^verbatim>\<open>{}\<close> raises \<^verbatim>\<open>AttributeError\<close> and gets no empty-field error.
\<close>

theorem required_field_errors:
  assumes "field \<in> set required_fields"
  shows "(\<forall>errs warns. validate_server_json pr (JObj d) = Inr (errs, warns) \<longrightarrow>
            (msg_missing_required field \<in> set errs \<longleftrightarrow> map_of d field = None) \<and>
            (msg_empty_required field \<in> set errs \<longleftrightarrow>
               (\<exists>v. map_of d field = Some v \<and> \<not> truthy v)) \<and>
            \<not> (msg_missing_required field \<in> set errs \<and> msg_empty_required field \<in> set errs)) \<and>
         (schema_typed d \<longrightarrow>
            (\<exists>errs warns. validate_server_json pr (JObj d) = Inr (errs, warns))) \<and>
         (\<forall>v. map_of d (lit ''name'') = Some v \<and> \<not> is_str v \<longrightarrow>
            validate_server_json pr (JObj d) = Inl AttributeError)"
  using required_errors_when_returned [OF _ assms, of pr d]
    validate_typed_returns [of d pr] validate_name_raises [of d _ pr]
  by blast

theorem required_field_errors_witness:
  "lit ''name'' \<in> set required_fields \<and>
   schema_typed [(lit ''name'', JStr []), (lit ''version'', JStr (lit ''1.0.0'')),
       (lit ''packages'', JArr [JObj [(lit ''type'', JStr (lit ''npm''))]])] \<and>
   validate_server_json latin1_printable (JObj [(lit ''name'', JStr []),
       (lit ''version'', JStr (lit ''1.0.0'')),
       (lit ''packages'', JArr [JObj [(lit ''type'', JStr (lit ''npm''))]])]) =
     Inr ([msg_empty_required (lit ''name''), msg_missing_required (lit ''description'')],
          [msg_name_namespace [], msg_name_slash [], msg_recommended (lit ''license''),
           msg_recommended (lit ''homepage''), msg_recommended (lit ''repository'')]) \<and>
   msg_empty_required (lit ''name'') \<in>
     set [msg_empty_required (lit ''name''), msg_missing_required (lit ''description'')] \<and>
   msg_missing_required (lit ''name'') \<notin>
     set [msg_empty_required (lit ''name''), msg_missing_required (lit ''description'')] \<and>
   validate_server_json latin1_printable (JObj [(lit ''name'', JInt 0)]) = Inl AttributeError"
proof -
  have v: "validate_server_json latin1_printable (JObj [(lit ''name'', JStr []),
       (lit ''version'', JStr (lit ''1.0.0'')),
       (lit ''packages'', JArr [JObj [(lit ''type'', JStr (lit ''npm''))]])]) =
     Inr ([msg_empty_required (lit ''name''), msg_missing_required (lit ''description'')],
          [msg_name_namespace [], msg_name_slash [], msg_recommended (lit ''license''),
           msg_recommended (lit ''homepage''), msg_recommended (lit ''repository'')])"
    by code_simp
  have f: "lit ''name'' \<in> set required_fields" by (simp add: required_fields_def)
  have t: "schema_typed [(lit ''name'', JStr []), (lit ''version'', JStr (lit ''1.0.0'')),
       (lit ''packages'', JArr [JObj [(lit ''type'', JStr (lit ''npm''))]])]"
    by (simp add: schema_typed_def entries_ok_def)
  from required_field_errors [OF f, where pr = latin1_printable
      and d = "[(lit ''name'', JStr []), (lit ''version'', JStr (lit ''1.0.0'')),
       (lit ''packages'', JArr [JObj [(lit ''type'', JStr (lit ''npm''))]])]"]
    required_field_errors [OF f, where pr = latin1_printable and d = "[(lit ''name'', JInt 0)]"]
  show ?thesis using v f t by simp
qed

theorem deployment_absent_raises:
  "map_of [(lit ''name'', JInt 5)] (lit ''packages'') = None \<and>
   map_of [(lit ''name'', JInt 5)] (lit ''remotes'') = None \<and>
   validate_server_json latin1_printable (JObj [(lit ''name'', JInt 5)]) = Inl AttributeError"
proof -
  have "validate_server_json latin1_printable (JObj [(lit ''name'', JInt 5)]) = Inl AttributeError"
    by code_simp
  then show ?thesis by simp
qed

text \<open>
  C3, as amended. For every document that is a mapping on which the validator returns:
  if \<^verbatim>\<open>packages\<close> is absent or the empty sequence and \<^verbatim>\<open>remotes\<close> is absent or the empty
  sequence, the error list has \<^verbatim>\<open>Must have at least one package or remote deployment\<close>;
  if either is a non-empty sequence, the error list does not have it. The validator
  returns on every mapping whose values have the types it relies on, so the other
  fields do not matter there; it does not return, and there is no error list, when
  \<^verbatim>\<open>name\<close> is present and not a string.
\<close>

theorem deployment_presence:
  "(\<forall>errs warns. validate_server_json pr (JObj d) = Inr (errs, warns) \<longrightarrow>
      ((map_of d (lit ''packages'') = None \<or> map_of d (lit ''packages'') = Some (JArr [])) \<and>
       (map_of d (lit ''remotes'') = None \<or> map_of d (lit ''remotes'') = Some (JArr []))
         \<longrightarrow> msg_no_deployment \<in> set errs) \<and>
      ((\<exists>ps. map_of d (lit ''packages'') = Some (JArr ps) \<and> ps \<noteq> []) \<or>
       (\<exists>rs. map_of d (lit ''remotes'') = Some (JArr rs) \<and> rs \<noteq> [])
         \<longrightarrow> msg_no_deployment \<notin> set errs)) \<and>
   (schema_typed d \<longrightarrow>
      (\<exists>errs warns. validate_server_json pr (JObj d) = Inr (errs, warns))) \<and>
   (\<forall>v. map_of d (lit ''name'') = Some v \<and> \<not> is_str v \<longrightarrow>
      validate_server_json pr (JObj d) = Inl AttributeError)"
  using deployment_when_returned [of pr d]
    validate_typed_returns [of d pr] validate_name_raises [of d _ pr]
  by blast

theorem deployment_presence_witness:
  "schema_typed [(lit ''name'', JStr (lit ''com.acme/tool'')), (lit ''version'', JInt 1),
      (lit ''description'', JStr (lit ''A tool'')), (lit ''packages'', JArr [])] \<and>
   validate_server_json latin1_printable (JObj [(lit ''name'', JStr (lit ''com.acme/tool'')),
      (lit ''version'', JInt 1), (lit ''description'', JStr (lit ''A tool'')),
      (lit ''packages'', JArr [])]) =
     Inr ([msg_no_deployment],
          [msg_recommended (lit ''license''), msg_recommended (lit ''homepage''),
           msg_recommended (lit ''repository'')]) \<and>
   msg_no_deployment \<in> set [msg_no_deployment] \<and>
   validate_server_json latin1_printable (JObj [(lit ''name'', JStr (lit ''com.acme/tool'')),
      (lit ''version'', JInt 1), (lit ''description'', JStr (lit ''A tool'')),
      (lit ''remotes'', JArr [JObj [(lit ''endpoint'', JStr (lit ''e'')),
                                    (lit ''transport'', JStr (lit ''sse''))]])]) =
     Inr ([], [msg_recommended (lit ''license''), msg_recommended (lit ''homepage''),
               msg_recommended (lit ''repository'')]) \<and>
   msg_no_deployment \<notin> set []"
proof -
  have v1: "validate_server_json latin1_printable (JObj [(lit ''name'', JStr (lit ''com.acme/tool'')),
      (lit ''version'', JInt 1), (lit ''description'', JStr (lit ''A tool'')),
      (lit ''packages'', JArr [])]) =
     Inr ([msg_no_deployment],
          [msg_recommended (lit ''license''), msg_recommended (lit ''homepage''),
           msg_recommended (lit ''repository'')])"
    by code_simp
  have v2: "validate_server_json latin1_printable (JObj [(lit ''name'', JStr (lit ''com.acme/tool'')),
      (lit ''version'', JInt 1), (lit ''description'', JStr (lit ''A tool'')),
      (lit ''remotes'', JArr [JObj [(lit ''endpoint'', JStr (lit ''e'')),
                                    (lit ''transport'', JStr (lit ''sse''))]])]) =
     Inr ([], [msg_recommended (lit ''license''), msg_recommended (lit ''homepage''),
               msg_recommended (lit ''repository'')])"
    by code_simp
  have t: "schema_typed [(lit ''name'', JStr (lit ''com.acme/tool'')), (lit ''version'', JInt 1),
      (lit ''description'', JStr (lit ''A tool'')), (lit ''packages'', JArr [])]"
    by (simp add: schema_typed_def entries_ok_def)
  from deployment_presence [where pr = latin1_printable
      and d = "[(lit ''name'', JStr (lit ''com.acme/tool'')), (lit ''version'', JInt 1),
        (lit ''description'', JStr (lit ''A tool'')), (lit ''packages'', JArr [])]"]
    deployment_presence [where pr = latin1_printable
      and d = "[(lit ''name'', JStr (lit ''com.acme/tool'')), (lit ''version'', JInt 1),
        (lit ''description'', JStr (lit ''A tool'')),
        (lit ''remotes'', JArr [JObj [(lit ''endpoint'', JStr (lit ''e'')),
                                      (lit ''transport'', JStr (lit ''sse''))]])]"]
  show ?thesis using v1 v2 t by simp
qed

section \<open>The reporter: summary and exit status\<close>



lemma slice_counts_code_points:
  "slice_to 60 (JStr (replicate 70 0xE9)) = Inr (JStr (replicate 60 0xE9))"
  "slice_to 60 (JStr (replicate 70 0x65E5)) = Inr (JStr (replicate 60 0x65E5))"
  by simp_all

lemma main_with_errors:
  assumes "validate_server_json pr config = Inr (errs, warns)" "errs \<noteq> []"
  shows "main pr (Loaded config) =
    ([lit ''Validating server.json...'' @ lit [CHR 0x0A]] @ errors_block errs @ warnings_block warns @
     [icon_cross @ lit '' server.json has validation errors''], Exit 1)"
  using assms by (simp add: Let_def)

lemma main_without_errors:
  assumes "validate_server_json pr config = Inr ([], warns)"
  shows "main pr (Loaded config) =
    show_summary pr config
      ([lit ''Validating server.json...'' @ lit [CHR 0x0A]] @ warnings_block warns @
       [icon_check @ (if warns = [] then (lit '' server.json looks good!'')
                      else lit '' server.json is valid (with warnings above)'')])"
  using assms by (simp add: Let_def errors_block_def)


lemma main_outcome_without_errors:
  assumes "validate_server_json pr config = Inr ([], warns)"
  shows "snd (main pr (Loaded config)) =
    (case snd (run_prints (summary pr config @ platform_support pr config)) of
       None \<Rightarrow> Exit 0 | Some e \<Rightarrow> Uncaught e)"
  unfolding main_without_errors [OF assms] show_summary_def
  by (simp split: prod.splits option.splits)

lemma exit_status_of_main:
  assumes "validate_server_json pr config = Inr (errs, warns)"
  shows "exit_status (snd (main pr (Loaded config))) = 0 \<longleftrightarrow>
         errs = [] \<and> snd (run_prints (summary pr config @ platform_support pr config)) = None"
proof (cases "errs = []")
  case True
  with assms have "validate_server_json pr config = Inr ([], warns)" by simp
  from main_without_errors [OF this] True show ?thesis
    by (simp add: show_summary_def split: prod.splits option.splits)
next
  case False
  from main_with_errors [OF assms False] False show ?thesis by simp
qed





section \<open>Exit status\<close>

text \<open>
  C8. The document \<^verbatim>\<open>{"name": "io.github.acme/tool", "version": "1.0.0", "description":
  "A tool", "packages": null, "remotes": [{"endpoint": "https://example.com/mcp",
  "transport": "sse"}]}\<close> loads, the validator returns an empty error list for it (three
  warnings), and the reporter ends with an uncaught \<^verbatim>\<open>TypeError\<close>, at \<^verbatim>\<open>len\<close> of the
  \<^verbatim>\<open>null\<close> under \<^verbatim>\<open>packages\<close> in the summary: exit status 1 with no error.
\<close>

theorem exit_status_one_without_errors:
  "validate_server_json latin1_printable (JObj [(lit ''name'', JStr (lit ''io.github.acme/tool'')),
      (lit ''version'', JStr (lit ''1.0.0'')), (lit ''description'', JStr (lit ''A tool'')), (lit ''packages'', JNull),
      (lit ''remotes'', JArr [JObj [(lit ''endpoint'', JStr (lit ''https://example.com/mcp'')),
                                (lit ''transport'', JStr (lit ''sse''))]])]) =
     Inr ([], [msg_recommended (lit ''license''), msg_recommended (lit ''homepage''),
               msg_recommended (lit ''repository'')]) \<and>
   snd (main latin1_printable (Loaded (JObj [(lit ''name'', JStr (lit ''io.github.acme/tool'')),
      (lit ''version'', JStr (lit ''1.0.0'')), (lit ''description'', JStr (lit ''A tool'')), (lit ''packages'', JNull),
      (lit ''remotes'', JArr [JObj [(lit ''endpoint'', JStr (lit ''https://example.com/mcp'')),
                                (lit ''transport'', JStr (lit ''sse''))]])]))) = Uncaught TypeError \<and>
   exit_status (snd (main latin1_printable (Loaded (JObj [(lit ''name'', JStr (lit ''io.github.acme/tool'')),
      (lit ''version'', JStr (lit ''1.0.0'')), (lit ''description'', JStr (lit ''A tool'')), (lit ''packages'', JNull),
      (lit ''remotes'', JArr [JObj [(lit ''endpoint'', JStr (lit ''https://example.com/mcp'')),
                                (lit ''transport'', JStr (lit ''sse''))]])])))) = 1"
proof -
  have v: "validate_server_json latin1_printable (JObj [(lit ''name'', JStr (lit ''io.github.acme/tool'')),
      (lit ''version'', JStr (lit ''1.0.0'')), (lit ''description'', JStr (lit ''A tool'')), (lit ''packages'', JNull),
      (lit ''remotes'', JArr [JObj [(lit ''endpoint'', JStr (lit ''https://example.com/mcp'')),
                                (lit ''transport'', JStr (lit ''sse''))]])]) =
     Inr ([], [msg_recommended (lit ''license''), msg_recommended (lit ''homepage''),
               msg_recommended (lit ''repository'')])"
    by code_simp
  have s: "snd (run_prints (summary latin1_printable (JObj [(lit ''name'', JStr (lit ''io.github.acme/tool'')),
      (lit ''version'', JStr (lit ''1.0.0'')), (lit ''description'', JStr (lit ''A tool'')), (lit ''packages'', JNull),
      (lit ''remotes'', JArr [JObj [(lit ''endpoint'', JStr (lit ''https://example.com/mcp'')),
                                (lit ''transport'', JStr (lit ''sse''))]])]) @
    platform_support latin1_printable (JObj [(lit ''name'', JStr (lit ''io.github.acme/tool'')),
      (lit ''version'', JStr (lit ''1.0.0'')), (lit ''description'', JStr (lit ''A tool'')), (lit ''packages'', JNull),
      (lit ''remotes'', JArr [JObj [(lit ''endpoint'', JStr (lit ''https://example.com/mcp'')),
                                (lit ''transport'', JStr (lit ''sse''))]])]))) = Some TypeError"
    by (simp add: summary_def dict_get_def)
  have "snd (main latin1_printable (Loaded (JObj [(lit ''name'', JStr (lit ''io.github.acme/tool'')),
      (lit ''version'', JStr (lit ''1.0.0'')), (lit ''description'', JStr (lit ''A tool'')), (lit ''packages'', JNull),
      (lit ''remotes'', JArr [JObj [(lit ''endpoint'', JStr (lit ''https://example.com/mcp'')),
                                (lit ''transport'', JStr (lit ''sse''))]])]))) = Uncaught TypeError"
    unfolding main_outcome_without_errors [OF v] s by simp
  with v show ?thesis by simp
qed

end
